theory Spec2Isabelle
  imports Complex_Main "HOL-Library.Word" "HOL-Library.AList"
begin

section \<open>JavaScript values\<close>

text \<open>
  A JavaScript string is a sequence of UTF-16 code units; \<open>length\<close> counts code units,
  as \<open>String.prototype.length\<close> does. Program literals are written as HOL strings and
  converted with \<open>u16\<close>.
\<close>

type_synonym jstring = "16 word list"

definition u16 :: "string \<Rightarrow> jstring" where
  "u16 s = map of_char s"

text \<open>
  A JavaScript number. The finite doubles are taken as the reals they denote; the
  validator only compares numbers with zero and only tests them for NaN.
\<close>

datatype number = NaN | PosInf | NegInf | Fin real

text \<open>
  The values \<open>request.json()\<close> can produce, together with \<open>undefined\<close> (what reading a
  missing property yields). An object is the list of its own properties.
\<close>

datatype json =
    JUndefined
  | JNull
  | JBool bool
  | JNum number
  | JStr jstring
  | JArr "json list"
  | JObj "(jstring \<times> json) list"

datatype jstype = TUndefined | TObject | TBoolean | TNumber | TString

fun typeof :: "json \<Rightarrow> jstype" where
  "typeof JUndefined = TUndefined"
| "typeof JNull = TObject"
| "typeof (JBool b) = TBoolean"
| "typeof (JNum n) = TNumber"
| "typeof (JStr s) = TString"
| "typeof (JArr xs) = TObject"
| "typeof (JObj fs) = TObject"

text \<open>ToBoolean: \<open>undefined\<close>, \<open>null\<close>, \<open>false\<close>, \<open>0\<close>, \<open>NaN\<close> and \<open>""\<close> are falsy.\<close>

fun truthy :: "json \<Rightarrow> bool" where
  "truthy JUndefined = False"
| "truthy JNull = False"
| "truthy (JBool b) = b"
| "truthy (JNum n) = (n \<noteq> NaN \<and> n \<noteq> Fin 0)"
| "truthy (JStr s) = (s \<noteq> [])"
| "truthy (JArr xs) = True"
| "truthy (JObj fs) = True"

fun isArray :: "json \<Rightarrow> bool" where
  "isArray (JArr xs) = True"
| "isArray _ = False"

text \<open>\<open>isNaN(x)\<close> and \<open>x <= 0\<close> on a value whose \<open>typeof\<close> is \<open>number\<close>.\<close>

fun isNaN :: "number \<Rightarrow> bool" where
  "isNaN NaN = True"
| "isNaN _ = False"

fun le_zero :: "number \<Rightarrow> bool" where
  "le_zero NaN = False"
| "le_zero PosInf = False"
| "le_zero NegInf = True"
| "le_zero (Fin r) = (r \<le> 0)"

subsection \<open>Exceptions\<close>

text \<open>
  Everything the program can throw. The last seven constructors are the error classes of
  the enrichment client; \<open>NetworkError\<close> carries its \<open>cause\<close>, \<open>RateLimitError\<close> its
  \<open>retryAfter\<close>, \<open>ResponseFormatError\<close> its \<open>details\<close>, \<open>OpenRouterError\<close> its code,
  status and cause. \<open>AbortError\<close> and \<open>FetchFailure\<close> are what \<open>fetch\<close> rejects with, \<open>SyntaxError\<close>
  what \<open>res.json()\<close> rejects with.
\<close>

datatype exn =
    TypeError
  | Error jstring
  | AbortError
  | FetchFailure
  | SyntaxError
  | OpenRouterError jstring string "nat option" "exn option"
  | AuthenticationError jstring
  | NetworkError jstring exn
  | RateLimitError jstring "int option"
  | ResponseFormatError jstring json
  | ValidationError jstring
  | UnsupportedFeatureError jstring

definition and_then :: "exn + 'a \<Rightarrow> ('a \<Rightarrow> exn + 'b) \<Rightarrow> exn + 'b" where
  "and_then m f = (case m of Inl e \<Rightarrow> Inl e | Inr x \<Rightarrow> f x)"

text \<open>\<open>a || b\<close>: \<open>b\<close> is evaluated, and can throw, only when \<open>a\<close> is false.\<close>

definition or_else :: "bool \<Rightarrow> (exn + bool) \<Rightarrow> exn + bool" where
  "or_else a b = (if a then Inr True else b)"

subsection \<open>Operations that can throw\<close>

text \<open>
  \<open>v.k\<close>: a TypeError on \<open>null\<close> and \<open>undefined\<close>; an own property of an object, or
  \<open>undefined\<close>. The names the program reads this way (\<open>title\<close>, \<open>raw_text\<close>, \<open>recipe_data\<close>,
  \<open>ingredients\<close>, \<open>steps\<close>, \<open>name\<close>, \<open>quantity\<close>, \<open>unit_id\<close>, \<open>unit_text\<close>,
  \<open>normalized_name\<close>, \<open>output\<close>) are not properties of any prototype of a primitive,
  an array or a plain object, so those read as \<open>undefined\<close> there.
\<close>

definition own :: "(jstring \<times> json) list \<Rightarrow> jstring \<Rightarrow> json" where
  "own fs k = (case map_of fs k of None \<Rightarrow> JUndefined | Some v \<Rightarrow> v)"

fun get_prop :: "json \<Rightarrow> jstring \<Rightarrow> exn + json" where
  "get_prop JUndefined k = Inl TypeError"
| "get_prop JNull k = Inl TypeError"
| "get_prop (JObj fs) k = Inr (own fs k)"
| "get_prop v k = Inr JUndefined"

text \<open>
  ECMAScript WhiteSpace and LineTerminator code units, which \<open>trim\<close> strips from both ends.
\<close>

definition is_space :: "16 word \<Rightarrow> bool" where
  "is_space c \<longleftrightarrow>
     c \<in> {0x0009, 0x000A, 0x000B, 0x000C, 0x000D, 0x0020, 0x00A0, 0x1680,
          0x2028, 0x2029, 0x202F, 0x205F, 0x3000, 0xFEFF}
     \<or> (0x2000 \<le> c \<and> c \<le> 0x200A)"

definition trim :: "jstring \<Rightarrow> jstring" where
  "trim s = rev (dropWhile is_space (rev (dropWhile is_space s)))"

text \<open>\<open>v.trim()\<close>: only a string has the method; calling it on anything else throws.\<close>

fun str_trim :: "json \<Rightarrow> exn + jstring" where
  "str_trim (JStr s) = Inr (trim s)"
| "str_trim v = Inl TypeError"

text \<open>
  \<open>v.length\<close> where a number is needed for a comparison: the length of a string or of
  an array, a TypeError on \<open>null\<close> and \<open>undefined\<close>. On the remaining values JavaScript
  yields \<open>undefined\<close> or an own property; the program never gets there, and the model
  reports those as a TypeError as well, so that totality of the validator shows it.
\<close>

fun js_length :: "json \<Rightarrow> exn + nat" where
  "js_length (JStr s) = Inr (length s)"
| "js_length (JArr xs) = Inr (length xs)"
| "js_length v = Inl TypeError"

text \<open>\<open>v.forEach(...)\<close> and \<open>v.map(...)\<close>: the elements of an array, otherwise a TypeError.\<close>

fun elements :: "json \<Rightarrow> exn + json list" where
  "elements (JArr xs) = Inr xs"
| "elements v = Inl TypeError"

subsection \<open>Decimal rendering of an index in a template literal\<close>

definition digit_char :: "nat \<Rightarrow> char" where
  "digit_char d = char_of (48 + d)"

function show_nat :: "nat \<Rightarrow> string" where
  "show_nat n = (if n < 10 then [digit_char n] else show_nat (n div 10) @ [digit_char (n mod 10)])"
  by pat_completeness auto
termination
  by (relation "measure id") auto

declare show_nat.simps [simp del]

section \<open>The request validator\<close>

text \<open>\<open>ValidationResult\<close>: \<open>{valid: true}\<close> or \<open>{valid: false, errors}\<close>.\<close>

type_synonym errors = "(string \<times> string) list"

datatype ValidationResult = Valid | Invalid errors

text \<open>\<open>errors[k] = v\<close> on the \<open>errors\<close> record: an existing key is overwritten in place.\<close>

definition set_error :: "string \<Rightarrow> string \<Rightarrow> errors \<Rightarrow> errors" where
  "set_error k v errors = AList.update k v errors"

text \<open>The regular expression \<open>/^[0-9a-fA-F-]{36}$/\<close>.\<close>

definition uuid_char :: "16 word \<Rightarrow> bool" where
  "uuid_char c \<longleftrightarrow>
     (0x30 \<le> c \<and> c \<le> 0x39) \<or> (0x61 \<le> c \<and> c \<le> 0x66) \<or> (0x41 \<le> c \<and> c \<le> 0x46) \<or> c = 0x2D"

definition uuid_regex_test :: "jstring \<Rightarrow> bool" where
  "uuid_regex_test s \<longleftrightarrow> length s = 36 \<and> list_all uuid_char s"

fun isUuid :: "json \<Rightarrow> bool" where
  "isUuid (JStr s) = uuid_regex_test s"
| "isUuid v = False"

text \<open>
  \<open>!x || typeof x !== 'string' || x.trim().length === 0\<close>, the test used for \<open>title\<close>,
  \<open>raw_text\<close>, \<open>recipe_data.title\<close> and an ingredient's \<open>name\<close>.
\<close>

definition blank :: "json \<Rightarrow> exn + bool" where
  "blank x =
     or_else (\<not> truthy x)
       (or_else (typeof x \<noteq> TString)
          (and_then (str_trim x) (\<lambda>t. Inr (length t = 0))))"

definition ingredient_msg :: "nat \<Rightarrow> string \<Rightarrow> string" where
  "ingredient_msg index rest = ''ingredients['' @ show_nat index @ '']'' @ rest"

text \<open>\<open>validateIngredient(item, index)\<close>: \<open>None\<close> is the result \<open>null\<close>, no violation.\<close>

definition validateIngredient :: "json \<Rightarrow> nat \<Rightarrow> exn + string option" where
  "validateIngredient item index =
     (if typeof item \<noteq> TObject \<or> item = JNull
      then Inr (Some (ingredient_msg index '' must be an object''))
      else
        and_then (get_prop item (u16 ''name'')) (\<lambda>name.
        and_then (blank name) (\<lambda>name_missing.
        if name_missing then Inr (Some (ingredient_msg index ''.name is required''))
        else
        and_then (js_length name) (\<lambda>name_length.
        if name_length > 200 then Inr (Some (ingredient_msg index ''.name too long''))
        else
        and_then (get_prop item (u16 ''quantity'')) (\<lambda>quantity.
        if (case quantity of JNum q \<Rightarrow> isNaN q \<or> le_zero q | _ \<Rightarrow> True)
        then Inr (Some (ingredient_msg index ''.quantity must be a number > 0''))
        else
        and_then (get_prop item (u16 ''unit_id'')) (\<lambda>unit_id.
        if truthy unit_id \<and> \<not> isUuid unit_id
        then Inr (Some (ingredient_msg index ''.unit_id must be a valid UUID''))
        else
        and_then (get_prop item (u16 ''unit_text'')) (\<lambda>unit_text.
        if truthy unit_text \<and> typeof unit_text \<noteq> TString
        then Inr (Some (ingredient_msg index ''.unit_text must be a string''))
        else
        and_then (get_prop item (u16 ''normalized_name'')) (\<lambda>normalized_name.
        if truthy normalized_name \<and> typeof normalized_name \<noteq> TString
        then Inr (Some (ingredient_msg index ''.normalized_name must be a string''))
        else Inr None))))))))"

text \<open>
  The callback of \<open>recipe_data.ingredients.forEach\<close>, and the loop itself with its
  running index.
\<close>

definition ingredient_step :: "json \<Rightarrow> nat \<Rightarrow> errors \<Rightarrow> exn + errors" where
  "ingredient_step ing idx errors =
     and_then (validateIngredient ing idx) (\<lambda>e.
       case e of
         None \<Rightarrow> Inr errors
       | Some m \<Rightarrow> Inr (set_error (''recipe_data.ingredients['' @ show_nat idx @ '']'') m errors))"

fun ingredients_loop :: "json list \<Rightarrow> nat \<Rightarrow> errors \<Rightarrow> exn + errors" where
  "ingredients_loop [] idx errors = Inr errors"
| "ingredients_loop (ing # rest) idx errors =
     and_then (ingredient_step ing idx errors) (ingredients_loop rest (Suc idx))"

text \<open>The callback of \<open>recipe_data.steps.forEach\<close>, and the loop.\<close>

definition step_key :: "nat \<Rightarrow> string" where
  "step_key idx = ''recipe_data.steps['' @ show_nat idx @ '']''"

definition step_step :: "json \<Rightarrow> nat \<Rightarrow> errors \<Rightarrow> exn + errors" where
  "step_step s idx errors =
     (if typeof s \<noteq> TString then Inr (set_error (step_key idx) ''step must be a string'' errors)
      else
        and_then (js_length s) (\<lambda>n.
        if n < 10 then Inr (set_error (step_key idx) ''step too short (min 10 chars)'' errors)
        else if n > 500 then Inr (set_error (step_key idx) ''step too long (max 500 chars)'' errors)
        else Inr errors))"

fun steps_loop :: "json list \<Rightarrow> nat \<Rightarrow> errors \<Rightarrow> exn + errors" where
  "steps_loop [] idx errors = Inr errors"
| "steps_loop (s # rest) idx errors =
     and_then (step_step s idx errors) (steps_loop rest (Suc idx))"

text \<open>The statements of \<open>validateCreateRecipeCommand\<close>, one definition each.\<close>

definition check_title :: "json \<Rightarrow> errors \<Rightarrow> exn + errors" where
  "check_title title errors =
     and_then (blank title) (\<lambda>missing.
     if missing then Inr (set_error ''title'' ''title is required'' errors)
     else
       and_then (js_length title) (\<lambda>n.
       if n > 300 then Inr (set_error ''title'' ''title too long (max 300)'' errors)
       else Inr errors))"

definition check_raw_text :: "json \<Rightarrow> errors \<Rightarrow> exn + errors" where
  "check_raw_text raw_text errors =
     and_then (blank raw_text) (\<lambda>missing.
     if missing then Inr (set_error ''raw_text'' ''raw_text is required'' errors)
     else Inr errors)"

definition check_recipe_title :: "json \<Rightarrow> errors \<Rightarrow> exn + errors" where
  "check_recipe_title recipe_data errors =
     and_then (get_prop recipe_data (u16 ''title'')) (\<lambda>t.
     and_then (blank t) (\<lambda>missing.
     if missing then Inr (set_error ''recipe_data.title'' ''recipe_data.title required'' errors)
     else Inr errors))"

definition check_ingredients :: "json \<Rightarrow> errors \<Rightarrow> exn + errors" where
  "check_ingredients recipe_data errors =
     and_then (get_prop recipe_data (u16 ''ingredients'')) (\<lambda>ingredients.
     and_then (or_else (\<not> isArray ingredients)
                 (and_then (js_length ingredients) (\<lambda>n. Inr (n = 0)))) (\<lambda>bad.
     if bad
     then Inr (set_error ''recipe_data.ingredients'' ''ingredients must be a non-empty array'' errors)
     else and_then (elements ingredients) (\<lambda>xs. ingredients_loop xs 0 errors)))"

definition check_steps :: "json \<Rightarrow> errors \<Rightarrow> exn + errors" where
  "check_steps recipe_data errors =
     and_then (get_prop recipe_data (u16 ''steps'')) (\<lambda>steps.
     if \<not> isArray steps
     then Inr (set_error ''recipe_data.steps'' ''steps must be an array of strings'' errors)
     else and_then (elements steps) (\<lambda>xs. steps_loop xs 0 errors))"

definition check_recipe_data :: "json \<Rightarrow> errors \<Rightarrow> exn + errors" where
  "check_recipe_data recipe_data errors =
     (if \<not> truthy recipe_data \<or> typeof recipe_data \<noteq> TObject
      then Inr (set_error ''recipe_data'' ''recipe_data is required and must be an object'' errors)
      else
        and_then (check_recipe_title recipe_data errors) (\<lambda>errors.
        and_then (check_ingredients recipe_data errors) (\<lambda>errors.
        check_steps recipe_data errors)))"

definition validateCreateRecipeCommand :: "json \<Rightarrow> exn + ValidationResult" where
  "validateCreateRecipeCommand body =
     (if \<not> truthy body \<or> typeof body \<noteq> TObject
      then Inr (Invalid [(''body'', ''Request body must be a JSON object'')])
      else
        and_then (get_prop body (u16 ''title'')) (\<lambda>title.
        and_then (get_prop body (u16 ''raw_text'')) (\<lambda>raw_text.
        and_then (get_prop body (u16 ''recipe_data'')) (\<lambda>recipe_data.
        and_then (check_title title []) (\<lambda>errors.
        and_then (check_raw_text raw_text errors) (\<lambda>errors.
        and_then (check_recipe_data recipe_data errors) (\<lambda>errors.
        if length (map fst errors) > 0 then Inr (Invalid errors) else Inr Valid)))))))"

text \<open>
  The rules other than the one on \<open>recipe_data.steps\<close>, as the validator applies them:
  \<open>title\<close> a non-blank string of at most 300 code units, \<open>raw_text\<close> a non-blank string,
  \<open>recipe_data\<close> an object with a non-blank \<open>title\<close> and a non-empty \<open>ingredients\<close>
  array whose entries all pass \<open>validateIngredient\<close>. They give the meaning of
  ``otherwise valid'' in the statements about steps.
\<close>

definition nonblank :: "json \<Rightarrow> bool" where
  "nonblank v = (case v of JStr s \<Rightarrow> trim s \<noteq> [] | _ \<Rightarrow> False)"

definition ingredient_rules_pass :: "json \<Rightarrow> bool" where
  "ingredient_rules_pass ingredients =
     (case ingredients of
        JArr xs \<Rightarrow>
          xs \<noteq> [] \<and> list_all (\<lambda>(idx, ing). validateIngredient ing idx = Inr None) (enumerate 0 xs)
      | _ \<Rightarrow> False)"

definition other_rules_pass :: "json \<Rightarrow> bool" where
  "other_rules_pass body =
     (case body of
        JObj fs \<Rightarrow>
          (case own fs (u16 ''title'') of JStr t \<Rightarrow> trim t \<noteq> [] \<and> length t \<le> 300 | _ \<Rightarrow> False) \<and>
          nonblank (own fs (u16 ''raw_text'')) \<and>
          (case own fs (u16 ''recipe_data'') of
             JObj rfs \<Rightarrow>
               nonblank (own rfs (u16 ''title'')) \<and>
               ingredient_rules_pass (own rfs (u16 ''ingredients''))
           | _ \<Rightarrow> False)
      | _ \<Rightarrow> False)"

text \<open>\<open>body.recipe_data.steps\<close> of an object body, \<open>undefined\<close> where it cannot be read.\<close>

definition recipe_steps :: "json \<Rightarrow> json" where
  "recipe_steps body =
     (case body of
        JObj fs \<Rightarrow> (case own fs (u16 ''recipe_data'') of JObj rfs \<Rightarrow> own rfs (u16 ''steps'') | _ \<Rightarrow> JUndefined)
      | _ \<Rightarrow> JUndefined)"






text \<open>
  The canonical text form of a UUID, which is what ``a well-formed 36-character UUID
  string'' says: 36 characters, hyphens at positions 8, 13, 18 and 23, hexadecimal digits
  everywhere else. It is used only to state the rule on \<open>unit_id\<close>; the code's own test is
  \<open>isUuid\<close> above.
\<close>

definition hex_digit :: "16 word \<Rightarrow> bool" where
  "hex_digit c \<longleftrightarrow>
     (0x30 \<le> c \<and> c \<le> 0x39) \<or> (0x61 \<le> c \<and> c \<le> 0x66) \<or> (0x41 \<le> c \<and> c \<le> 0x46)"

definition well_formed_uuid :: "json \<Rightarrow> bool" where
  "well_formed_uuid v =
     (case v of
        JStr s \<Rightarrow>
          length s = 36 \<and>
          list_all (\<lambda>(i, c). if i \<in> {8, 13, 18, 23} then c = 0x2D else hex_digit c) (enumerate 0 s)
      | _ \<Rightarrow> False)"

section \<open>The persistence and authentication collaborators\<close>

text \<open>
  Modelled from the spec: the persistence collaborator and the authentication
  collaborator. The sources only construct \<open>supabaseClient\<close> with the library's
  \<open>createClient\<close>; what the client does is library code outside the repository. The
  spec describes it as a relational store with insert, select and delete per entity and
  an opaque token verification. Every call either resolves to \<open>{data, error}\<close> or its
  promise rejects, and which of these happens is a parameter (\<open>env\<close>): the theorems
  hold for every behaviour of the collaborators. A write takes effect on the store
  exactly when it resolves without an error.
\<close>

type_synonym row = "(jstring \<times> json) list"

datatype 'a reply = Reply (data: "'a option") (error: "jstring option")

datatype 'a outcome = Resolves "'a reply" | Rejects exn

datatype db_call =
    GetUser jstring
  | SelectMapping jstring
  | InsertUser row
  | InsertMapping row
  | InsertRecipe row
  | InsertIngredients "row list"
  | DeleteRecipe jstring
  | InsertAudit row

record env =
  uuidv4 :: "nat \<Rightarrow> jstring"
  now_iso :: jstring
  auth_getUser :: "jstring \<Rightarrow> (jstring option) outcome"
  select_mapping :: "jstring \<Rightarrow> row outcome"
  insert_user :: "row \<Rightarrow> row outcome"
  insert_mapping :: "row \<Rightarrow> unit outcome"
  insert_recipe :: "row \<Rightarrow> row outcome"
  insert_ingredients :: "row list \<Rightarrow> (row list) outcome"
  delete_recipe :: "jstring \<Rightarrow> unit outcome"
  insert_audit :: "row \<Rightarrow> unit outcome"

record world =
  recipes :: "row list"
  ingredients :: "row list"
  recipe_audit :: "row list"
  users :: "row list"
  auth_user_map :: "row list"
  calls :: "db_call list"
  console :: "string list"

definition applied :: "'a outcome \<Rightarrow> bool" where
  "applied out = (case out of Resolves r \<Rightarrow> error r = None | Rejects e \<Rightarrow> False)"

definition db_insert_recipe :: "env \<Rightarrow> row \<Rightarrow> world \<Rightarrow> row outcome \<times> world" where
  "db_insert_recipe env r w =
     (let out = insert_recipe env r
      in (out, w\<lparr>calls := calls w @ [InsertRecipe r],
                 recipes := (if applied out then recipes w @ [r] else recipes w)\<rparr>))"

definition db_insert_ingredients :: "env \<Rightarrow> row list \<Rightarrow> world \<Rightarrow> (row list) outcome \<times> world" where
  "db_insert_ingredients env rs w =
     (let out = insert_ingredients env rs
      in (out, w\<lparr>calls := calls w @ [InsertIngredients rs],
                 ingredients := (if applied out then ingredients w @ rs else ingredients w)\<rparr>))"

text \<open>\<open>from('recipes').delete().eq('id', recipeId)\<close>: every row with that id goes.\<close>

definition db_delete_recipe :: "env \<Rightarrow> jstring \<Rightarrow> world \<Rightarrow> unit outcome \<times> world" where
  "db_delete_recipe env recipeId w =
     (let out = delete_recipe env recipeId
      in (out, w\<lparr>calls := calls w @ [DeleteRecipe recipeId],
                 recipes := (if applied out
                             then filter (\<lambda>r. own r (u16 ''id'') \<noteq> JStr recipeId) (recipes w)
                             else recipes w)\<rparr>))"

definition db_insert_audit :: "env \<Rightarrow> row \<Rightarrow> world \<Rightarrow> unit outcome \<times> world" where
  "db_insert_audit env r w =
     (let out = insert_audit env r
      in (out, w\<lparr>calls := calls w @ [InsertAudit r],
                 recipe_audit := (if applied out then recipe_audit w @ [r] else recipe_audit w)\<rparr>))"

definition db_insert_user :: "env \<Rightarrow> row \<Rightarrow> world \<Rightarrow> row outcome \<times> world" where
  "db_insert_user env r w =
     (let out = insert_user env r
      in (out, w\<lparr>calls := calls w @ [InsertUser r],
                 users := (if applied out then users w @ [r] else users w)\<rparr>))"

definition db_insert_mapping :: "env \<Rightarrow> row \<Rightarrow> world \<Rightarrow> unit outcome \<times> world" where
  "db_insert_mapping env r w =
     (let out = insert_mapping env r
      in (out, w\<lparr>calls := calls w @ [InsertMapping r],
                 auth_user_map := (if applied out then auth_user_map w @ [r] else auth_user_map w)\<rparr>))"

definition db_select_mapping :: "env \<Rightarrow> jstring \<Rightarrow> world \<Rightarrow> row outcome \<times> world" where
  "db_select_mapping env authUserId w =
     (select_mapping env authUserId, w\<lparr>calls := calls w @ [SelectMapping authUserId]\<rparr>)"

definition auth_get_user :: "env \<Rightarrow> jstring \<Rightarrow> world \<Rightarrow> (jstring option) outcome \<times> world" where
  "auth_get_user env token w =
     (auth_getUser env token, w\<lparr>calls := calls w @ [GetUser token]\<rparr>)"

section \<open>RecipeService.createRecipe\<close>

text \<open>\<open>a ?? null\<close>.\<close>

fun or_null :: "json \<Rightarrow> json" where
  "or_null JUndefined = JNull"
| "or_null v = v"

text \<open>
  One element of \<open>ingredientsPayload\<close>. The recipe takes \<open>uuidv4 env 0\<close> as its id and
  the ingredient at position \<open>i\<close> takes \<open>uuidv4 env (Suc i)\<close>, the order in which the
  source draws them.
\<close>

definition ingredient_row :: "env \<Rightarrow> jstring \<Rightarrow> nat \<Rightarrow> json \<Rightarrow> exn + row" where
  "ingredient_row env recipeId i ing =
     and_then (get_prop ing (u16 ''name'')) (\<lambda>name.
     and_then (get_prop ing (u16 ''normalized_name'')) (\<lambda>normalized_name.
     and_then (get_prop ing (u16 ''quantity'')) (\<lambda>quantity.
     and_then (get_prop ing (u16 ''unit_id'')) (\<lambda>unit_id.
     and_then (get_prop ing (u16 ''unit_text'')) (\<lambda>unit_text.
       Inr [(u16 ''id'', JStr (uuidv4 env (Suc i))),
            (u16 ''name'', name),
            (u16 ''normalized_name'', or_null normalized_name),
            (u16 ''quantity'', quantity),
            (u16 ''recipe_id'', JStr recipeId),
            (u16 ''unit_id'', or_null unit_id),
            (u16 ''unit_text'', or_null unit_text)])))))"

fun ingredient_rows :: "env \<Rightarrow> jstring \<Rightarrow> nat \<Rightarrow> json list \<Rightarrow> exn + row list" where
  "ingredient_rows env recipeId i [] = Inr []"
| "ingredient_rows env recipeId i (ing # rest) =
     and_then (ingredient_row env recipeId i ing) (\<lambda>r.
     and_then (ingredient_rows env recipeId (Suc i) rest) (\<lambda>rs. Inr (r # rs)))"

definition ingredientsPayload :: "env \<Rightarrow> jstring \<Rightarrow> json \<Rightarrow> exn + row list" where
  "ingredientsPayload env recipeId cmd =
     and_then (get_prop cmd (u16 ''recipe_data'')) (\<lambda>recipe_data.
     and_then (get_prop recipe_data (u16 ''ingredients'')) (\<lambda>ings.
     and_then (elements ings) (ingredient_rows env recipeId 0)))"

text \<open>The row given to the \<open>recipes\<close> insert.\<close>

definition recipe_insert_payload :: "env \<Rightarrow> json \<Rightarrow> json \<Rightarrow> exn + row" where
  "recipe_insert_payload env userId cmd =
     and_then (get_prop cmd (u16 ''title'')) (\<lambda>title.
     and_then (get_prop cmd (u16 ''raw_text'')) (\<lambda>raw_text.
     and_then (get_prop cmd (u16 ''recipe_data'')) (\<lambda>recipe_data.
       Inr [(u16 ''id'', JStr (uuidv4 env 0)),
            (u16 ''owner_user_id'', userId),
            (u16 ''title'', title),
            (u16 ''raw_text'', raw_text),
            (u16 ''recipe_data'', recipe_data)])))"

text \<open>
  The audit insert inside its \<open>try\<close>/\<open>catch\<close>: whatever is thrown there is logged and
  swallowed, an error in the reply is not looked at.
\<close>

definition audit_payload :: "env \<Rightarrow> json \<Rightarrow> json \<Rightarrow> exn + row" where
  "audit_payload env userId cmd =
     and_then (get_prop cmd (u16 ''title'')) (\<lambda>title.
       Inr [(u16 ''action'', JStr (u16 ''create'')),
            (u16 ''anonymized_id'', JNull),
            (u16 ''recipe_id'', JStr (uuidv4 env 0)),
            (u16 ''user_id'', userId),
            (u16 ''meta'', JObj [(u16 ''title'', title)])])"

definition write_audit :: "env \<Rightarrow> json \<Rightarrow> json \<Rightarrow> world \<Rightarrow> world" where
  "write_audit env userId cmd w =
     (case audit_payload env userId cmd of
        Inl e \<Rightarrow> w\<lparr>console := console w @ [''Failed to write audit row'']\<rparr>
      | Inr r \<Rightarrow>
          (case db_insert_audit env r w of
             (Resolves rep, w1) \<Rightarrow> w1
           | (Rejects e, w1) \<Rightarrow> w1\<lparr>console := console w1 @ [''Failed to write audit row'']\<rparr>))"

text \<open>
  The response object \<open>{...recipeData, recipe_data: cmd.recipe_data, ingredients,
  cached_nutrition: null}\<close>.
\<close>

definition assemble_response :: "row \<Rightarrow> json \<Rightarrow> row list \<Rightarrow> json" where
  "assemble_response recipeData recipe_data ingredient_list =
     JObj (AList.update (u16 ''cached_nutrition'') JNull
            (AList.update (u16 ''ingredients'') (JArr (map JObj ingredient_list))
              (AList.update (u16 ''recipe_data'') recipe_data recipeData)))"

definition createRecipe :: "env \<Rightarrow> json \<Rightarrow> json \<Rightarrow> world \<Rightarrow> (exn + json) \<times> world" where
  "createRecipe env userId cmd w =
     (let recipeId = uuidv4 env 0 in
      case recipe_insert_payload env userId cmd of
        Inl e \<Rightarrow> (Inl e, w)
      | Inr recipe_row \<Rightarrow>
          (case db_insert_recipe env recipe_row w of
             (Rejects e, w1) \<Rightarrow> (Inl e, w1)
           | (Resolves (Reply recipeData recipeError), w1) \<Rightarrow>
               (case (recipeError, recipeData) of
                  (None, Some recipeRow) \<Rightarrow>
                    (case ingredientsPayload env recipeId cmd of
                       Inl e \<Rightarrow> (Inl e, w1)
                     | Inr payload \<Rightarrow>
                         (case db_insert_ingredients env payload w1 of
                            (Rejects e, w2) \<Rightarrow> (Inl e, w2)
                          | (Resolves (Reply ingredientsData ingredientsError), w2) \<Rightarrow>
                              (case ingredientsError of
                                 Some m \<Rightarrow>
                                   (case db_delete_recipe env recipeId w2 of
                                      (Rejects e, w3) \<Rightarrow> (Inl e, w3)
                                    | (Resolves rep, w3) \<Rightarrow>
                                        (Inl (Error (u16 ''Failed to insert ingredients: '' @ m)), w3))
                               | None \<Rightarrow>
                                   (let ingredient_list =
                                          (case ingredientsData of None \<Rightarrow> [] | Some rs \<Rightarrow> rs);
                                        w3 = write_audit env userId cmd w2
                                    in case get_prop cmd (u16 ''recipe_data'') of
                                         Inl e \<Rightarrow> (Inl e, w3)
                                       | Inr recipe_data \<Rightarrow>
                                           (Inr (assemble_response recipeRow recipe_data ingredient_list),
                                            w3)))))
                | _ \<Rightarrow>
                    (Inl (Error (u16 ''Failed to insert recipe: '' @
                            (case recipeError of
                               None \<Rightarrow> u16 ''unknown''
                             | Some m \<Rightarrow> if m = [] then u16 ''unknown'' else m))), w1))))"

section \<open>The handler of POST /api/v1/recipes\<close>

text \<open>
  A request, as far as the handler reads it: the \<open>authorization\<close> header (\<open>None\<close> when
  absent) and the result of \<open>request.json()\<close> (\<open>None\<close> when the body is not JSON).
\<close>

record request =
  authorization :: "jstring option"
  json_body :: "json option"

datatype api_response = Response (http_status: nat) (response_body: json)

text \<open>\<open>s.split(sep)\<close> for a one-character separator.\<close>

fun split_on :: "'a \<Rightarrow> 'a list \<Rightarrow> 'a list list" where
  "split_on sep [] = [[]]"
| "split_on sep (c # cs) =
     (if c = sep then [] # split_on sep cs
      else (case split_on sep cs of p # ps \<Rightarrow> (c # p) # ps | [] \<Rightarrow> [[c]]))"

definition getAuthUserIdFromHeader :: "env \<Rightarrow> request \<Rightarrow> world \<Rightarrow> jstring option \<times> world" where
  "getAuthUserIdFromHeader env req w =
     (case authorization req of
        None \<Rightarrow> (None, w)
      | Some auth \<Rightarrow>
          if auth = [] then (None, w)
          else
            (case split_on 0x20 auth of
               [p0, token] \<Rightarrow>
                 (case auth_get_user env token w of
                    (Rejects e, w1) \<Rightarrow> (None, w1\<lparr>console := console w1 @ [''Auth verify failed'']\<rparr>)
                  | (Resolves (Reply d err), w1) \<Rightarrow>
                      (case (err, d) of
                         (None, Some (Some user_id)) \<Rightarrow> (Some user_id, w1)
                       | _ \<Rightarrow> (None, w1)))
             | _ \<Rightarrow> (None, w)))"

text \<open>
  The \<open>try\<close> block that maps the auth uid to the internal user id: the \<open>user_id\<close> of the
  mapping row when there is one, otherwise the \<open>user_id\<close> of a newly inserted user row.
  Reading \<open>newUser.user_id\<close> when the insert returned no row is a TypeError.
\<close>

definition resolve_user_id :: "env \<Rightarrow> jstring \<Rightarrow> world \<Rightarrow> (exn + json) \<times> world" where
  "resolve_user_id env authUserId w =
     (case db_select_mapping env authUserId w of
        (Rejects e, w1) \<Rightarrow> (Inl e, w1)
      | (Resolves (Reply mapping err), w1) \<Rightarrow>
          if (case mapping of None \<Rightarrow> False | Some m \<Rightarrow> truthy (own m (u16 ''user_id'')))
          then (Inr (case mapping of None \<Rightarrow> JUndefined | Some m \<Rightarrow> own m (u16 ''user_id'')), w1)
          else
            (case db_insert_user env
                    [(u16 ''user_id'', JStr authUserId),
                     (u16 ''age'', JNum (Fin 0)),
                     (u16 ''disease'', JStr []),
                     (u16 ''preferences'', JObj []),
                     (u16 ''created_at'', JStr (now_iso env)),
                     (u16 ''updated_at'', JStr (now_iso env)),
                     (u16 ''sex'', JStr [])] w1 of
               (Rejects e, w2) \<Rightarrow> (Inl e, w2)
             | (Resolves (Reply newUser err2), w2) \<Rightarrow>
                 (case newUser of
                    None \<Rightarrow> (Inl TypeError, w2)
                  | Some u \<Rightarrow>
                      (let userId = own u (u16 ''user_id'') in
                       case db_insert_mapping env
                              [(u16 ''auth_user_id'', JStr authUserId), (u16 ''user_id'', userId)] w2 of
                         (Rejects e, w3) \<Rightarrow> (Inl e, w3)
                       | (Resolves rep, w3) \<Rightarrow> (Inr userId, w3)))))"

definition error_body :: "string \<Rightarrow> jstring \<Rightarrow> (jstring \<times> json) list \<Rightarrow> json" where
  "error_body code message extra =
     JObj [(u16 ''error'', JObj ([(u16 ''code'', JStr (u16 code)), (u16 ''message'', JStr message)] @ extra))]"

definition errors_json :: "errors \<Rightarrow> json" where
  "errors_json errs = JObj (map (\<lambda>(k, v). (u16 k, JStr (u16 v))) errs)"

text \<open>
  \<open>e.message\<close>. The text of an exception raised by the engine itself is not fixed by
  the program; the empty string stands for it, so that \<open>e.message || 'internal'\<close> reads
  \<open>internal\<close> there.
\<close>

fun message_of :: "exn \<Rightarrow> jstring" where
  "message_of (Error m) = m"
| "message_of (OpenRouterError m c st cause) = m"
| "message_of (AuthenticationError m) = m"
| "message_of (NetworkError m cause) = m"
| "message_of (RateLimitError m ra) = m"
| "message_of (ResponseFormatError m d) = m"
| "message_of (ValidationError m) = m"
| "message_of (UnsupportedFeatureError m) = m"
| "message_of e = []"

text \<open>
  The handler. \<open>Inl\<close> is the handler itself throwing, which only an exception of the
  validator, called outside every \<open>try\<close>, could cause.
\<close>

definition post :: "env \<Rightarrow> request \<Rightarrow> world \<Rightarrow> (exn + api_response) \<times> world" where
  "post env req w =
     (case json_body req of
        None \<Rightarrow> (Inr (Response 400 (error_body ''bad_request'' (u16 ''Invalid JSON body'') [])), w)
      | Some body \<Rightarrow>
          (case validateCreateRecipeCommand body of
             Inl e \<Rightarrow> (Inl e, w)
           | Inr (Invalid errs) \<Rightarrow>
               (Inr (Response 400 (error_body ''bad_request'' (u16 ''Validation failed'')
                                     [(u16 ''details'', errors_json errs)])), w)
           | Inr Valid \<Rightarrow>
               (case getAuthUserIdFromHeader env req w of
                  (None, w1) \<Rightarrow>
                    (Inr (Response 401 (error_body ''unauthorized'' (u16 ''Missing or invalid token'') [])), w1)
                | (Some authUserId, w1) \<Rightarrow>
                    if authUserId = []
                    then (Inr (Response 401 (error_body ''unauthorized'' (u16 ''Missing or invalid token'') [])), w1)
                    else
                      (case resolve_user_id env authUserId w1 of
                         (Inl e, w2) \<Rightarrow>
                           (Inr (Response 500 (error_body ''internal_error'' (u16 ''Failed to resolve user'') [])),
                            w2\<lparr>console := console w2 @ [''Failed to resolve/create user mapping'']\<rparr>)
                       | (Inr userId, w2) \<Rightarrow>
                           (case createRecipe env userId body w2 of
                              (Inr recipe, w3) \<Rightarrow> (Inr (Response 201 recipe), w3)
                            | (Inl e, w3) \<Rightarrow>
                                (Inr (Response 500
                                        (error_body ''internal_error''
                                           (if message_of e = [] then u16 ''internal'' else message_of e) [])),
                                 w3\<lparr>console := console w3 @ [''Create recipe failed'']\<rparr>))))))"

section \<open>The enrichment client (OpenRouterService)\<close>

datatype Role = System | User | Assistant

record OpenRouterMessage =
  role :: Role
  content :: jstring

record ResponseFormatSpec =
  rf_type :: jstring
  schema_name :: jstring
  strict :: bool
  schema :: json

text \<open>
  A compiled AJV validator: applied to a payload it says whether the payload is valid,
  and leaves its \<open>errors\<close>.
\<close>

type_synonym validator = "json \<Rightarrow> bool \<times> json"

record service =
  baseUrl :: jstring
  defaultModel :: jstring
  timeoutMs :: nat
  maxRetries :: int
  apiKey :: jstring
  validators :: "jstring \<rightharpoonup> validator"
  systemMessage :: "jstring option"
  isShutdown :: bool

record send_opts =
  opt_model :: "jstring option"
  opt_params :: "json option"
  opt_responseFormat :: "ResponseFormatSpec option"
  opt_timeoutMs :: "nat option"

text \<open>
  What the client's surroundings decide: the outcome of the \<open>k\<close>-th \<open>fetch\<close> (the promise
  rejects on abort or on a transport failure, or a response arrives), the \<open>k\<close>-th value of
  \<open>Math.random()\<close>, and \<open>ajv.compile\<close> (\<open>None\<close> when it throws). The retry count is an
  integer; the state \<open>net\<close> records the payload of every request sent, the number of
  random draws and the pauses taken, each with the value of \<open>attempt\<close> it was computed from.
\<close>

record http_res =
  status :: nat
  retry_after :: "jstring option"
  body_text :: "jstring option"
  body_json :: "json option"

datatype fetch_outcome = FetchAbort | FetchFail | FetchResponse http_res

record net_env =
  fetch :: "nat \<Rightarrow> fetch_outcome"
  random :: "nat \<Rightarrow> real"
  compile :: "json \<Rightarrow> validator option"

record net =
  sent :: "json list"
  draws :: nat
  waits :: "(nat \<times> real) list"

definition ok :: "http_res \<Rightarrow> bool" where
  "ok res \<longleftrightarrow> 200 \<le> status res \<and> status res \<le> 299"

text \<open>\<open>parseInt(s, 10)\<close>; \<open>None\<close> is NaN.\<close>

definition is_digit :: "16 word \<Rightarrow> bool" where
  "is_digit c \<longleftrightarrow> 0x30 \<le> c \<and> c \<le> 0x39"

definition digits_value :: "jstring \<Rightarrow> nat" where
  "digits_value ds = foldl (\<lambda>a c. 10 * a + (unat c - 48)) 0 ds"

definition parseInt10 :: "jstring \<Rightarrow> int option" where
  "parseInt10 s =
     (let t = dropWhile is_space s;
          neg = (case t of c # cs \<Rightarrow> c = 0x2D | [] \<Rightarrow> False);
          u = (case t of c # cs \<Rightarrow> if c = 0x2D \<or> c = 0x2B then cs else t | [] \<Rightarrow> []);
          ds = takeWhile is_digit u
      in if ds = [] then None
         else Some (if neg then - int (digits_value ds) else int (digits_value ds)))"

text \<open>\<open>parseInt(res.headers.get('Retry-After') || '0', 10) || undefined\<close>.\<close>

definition retryAfter_of :: "http_res \<Rightarrow> int option" where
  "retryAfter_of res =
     (case parseInt10 (case retry_after res of
                         None \<Rightarrow> u16 ''0''
                       | Some h \<Rightarrow> if h = [] then u16 ''0'' else h) of
        None \<Rightarrow> None
      | Some n \<Rightarrow> if n = 0 then None else Some n)"

text \<open>\<open>v?.k\<close>, \<open>v?.[0]\<close> and \<open>a ?? b\<close>.\<close>

fun opt_prop :: "json \<Rightarrow> jstring \<Rightarrow> json" where
  "opt_prop (JObj fs) k = own fs k"
| "opt_prop v k = JUndefined"

fun opt_first :: "json \<Rightarrow> json" where
  "opt_first (JArr (x # xs)) = x"
| "opt_first (JObj fs) = own fs (u16 ''0'')"
| "opt_first (JStr (c # cs)) = JStr [c]"
| "opt_first v = JUndefined"

definition nullish :: "json \<Rightarrow> json \<Rightarrow> json" where
  "nullish a b = (if a = JUndefined \<or> a = JNull then b else a)"

definition message_json :: "OpenRouterMessage \<Rightarrow> json" where
  "message_json m =
     JObj [(u16 ''role'', JStr (case role m of System \<Rightarrow> u16 ''system'' | User \<Rightarrow> u16 ''user''
                                              | Assistant \<Rightarrow> u16 ''assistant'')),
           (u16 ''content'', JStr (content m))]"

definition response_format_json :: "ResponseFormatSpec \<Rightarrow> json" where
  "response_format_json rf =
     JObj [(u16 ''type'', JStr (rf_type rf)),
           (u16 ''json_schema'',
            JObj [(u16 ''name'', JStr (schema_name rf)), (u16 ''strict'', JBool (strict rf)),
                  (u16 ''schema'', schema rf)])]"

definition buildPayload :: "service \<Rightarrow> OpenRouterMessage list \<Rightarrow> send_opts \<Rightarrow> exn + json" where
  "buildPayload svc messages opts =
     (if messages = [] then Inl (ValidationError (u16 ''messages must be a non-empty array''))
      else
        (let model = (case opt_model opts of
                        None \<Rightarrow> defaultModel svc
                      | Some m \<Rightarrow> if m = [] then defaultModel svc else m);
             combinedMessages =
               (case systemMessage svc of
                  None \<Rightarrow> []
                | Some sm \<Rightarrow> if sm = [] then [] else [\<lparr>role = System, content = sm\<rparr>]) @ messages
         in Inr (JObj ([(u16 ''model'', JStr model),
                        (u16 ''messages'', JArr (map message_json combinedMessages))]
                       @ (case opt_params opts of
                            None \<Rightarrow> []
                          | Some ps \<Rightarrow> if truthy ps then [(u16 ''params'', ps)] else [])
                       @ (case opt_responseFormat opts of
                            None \<Rightarrow> []
                          | Some rf \<Rightarrow> [(u16 ''response_format'', response_format_json rf)])))))"

definition handleOpenRouterResponse :: "http_res \<Rightarrow> json \<Rightarrow> exn + json" where
  "handleOpenRouterResponse res sentPayload =
     (if \<not> ok res then
        (let text = (case body_text res of None \<Rightarrow> [] | Some t \<Rightarrow> t) in
         if status res = 401 then Inl (AuthenticationError (u16 ''Invalid API key''))
         else if status res = 429
         then Inl (RateLimitError (u16 ''Rate limited by OpenRouter'') (retryAfter_of res))
         else Inl (OpenRouterError
                     (u16 (''OpenRouter returned '' @ show_nat (status res) @ '': '') @ text)
                     ''OPENROUTER_HTTP'' (Some (status res)) None))
      else
        (case body_json res of
           None \<Rightarrow> Inl (OpenRouterError (u16 ''Invalid JSON response from OpenRouter'')
                         ''INVALID_JSON'' (Some (status res)) (Some SyntaxError))
         | Some d \<Rightarrow>
             if truthy (opt_prop sentPayload (u16 ''response_format''))
             then Inr (nullish (opt_prop d (u16 ''output''))
                         (nullish (opt_prop (opt_first (opt_prop d (u16 ''choices''))) (u16 ''message'')) d))
             else Inr d))"

text \<open>
  The closure \<open>attempt\<close> of \<open>sendMessage\<close>. Its \<open>catch\<close> clause receives whatever the
  \<open>try\<close> block throws, the rejection of \<open>fetch\<close> as well as an error thrown by
  \<open>handleOpenRouterResponse\<close>, which is awaited inside the \<open>try\<close>; it rethrows a
  \<open>NetworkError\<close> with the caught error as its cause.
\<close>

definition catch_attempt :: "exn \<Rightarrow> exn" where
  "catch_attempt err =
     (if err = AbortError then NetworkError (u16 ''Request timeout'') err
      else NetworkError (u16 ''Network request failed'') err)"

definition attempt :: "net_env \<Rightarrow> json \<Rightarrow> net \<Rightarrow> (exn + json) \<times> net" where
  "attempt nenv payload n =
     (let n1 = n\<lparr>sent := sent n @ [payload]\<rparr> in
      case (case fetch nenv (length (sent n)) of
              FetchAbort \<Rightarrow> Inl AbortError
            | FetchFail \<Rightarrow> Inl FetchFailure
            | FetchResponse res \<Rightarrow> handleOpenRouterResponse res payload) of
        Inl err \<Rightarrow> (Inl (catch_attempt err), n1)
      | Inr v \<Rightarrow> (Inr v, n1))"

fun isRetriableError :: "exn \<Rightarrow> bool" where
  "isRetriableError (RateLimitError m ra) = True"
| "isRetriableError (NetworkError m cause) = True"
| "isRetriableError e = False"

text \<open>
  The loop of \<open>retryWithBackoff\<close>, from the current value of \<open>attempt\<close>. A pause is
  recorded in \<open>waits\<close> in place of the \<open>setTimeout\<close>.
\<close>

function retry_loop ::
  "(net \<Rightarrow> (exn + 'a) \<times> net) \<Rightarrow> net_env \<Rightarrow> int \<Rightarrow> nat \<Rightarrow> net \<Rightarrow> (exn + 'a) \<times> net" where
  "retry_loop fn nenv retries attempt_no n =
     (case fn n of
        (Inr v, n1) \<Rightarrow> (Inr v, n1)
      | (Inl err, n1) \<Rightarrow>
          if \<not> isRetriableError err \<or> int (Suc attempt_no) > retries then (Inl err, n1)
          else
            retry_loop fn nenv retries (Suc attempt_no)
              (n1\<lparr>draws := Suc (draws n1),
                  waits := waits n1 @
                    [(Suc attempt_no,
                      min 2000 (300 * 2 ^ Suc attempt_no) + random nenv (draws n1) * 100)]\<rparr>))"
  by pat_completeness auto
termination
  by (relation "measure (\<lambda>(fn, nenv, retries, attempt_no, n). nat (retries - int attempt_no))") auto

declare retry_loop.simps [simp del]

definition retryWithBackoff ::
  "(net \<Rightarrow> (exn + 'a) \<times> net) \<Rightarrow> net_env \<Rightarrow> int \<Rightarrow> net \<Rightarrow> (exn + 'a) \<times> net" where
  "retryWithBackoff fn nenv retries n = retry_loop fn nenv retries 0 n"

definition sendMessage ::
  "service \<Rightarrow> net_env \<Rightarrow> OpenRouterMessage list \<Rightarrow> send_opts \<Rightarrow> net \<Rightarrow> (exn + json) \<times> net" where
  "sendMessage svc nenv messages opts n =
     (if isShutdown svc
      then (Inl (OpenRouterError (u16 ''Service is shutdown'') ''OPENROUTER_ERROR'' None None), n)
      else if messages = []
      then (Inl (ValidationError (u16 ''messages must be a non-empty array'')), n)
      else
        (case buildPayload svc messages opts of
           Inl e \<Rightarrow> (Inl e, n)
         | Inr payload \<Rightarrow> retryWithBackoff (attempt nenv payload) nenv (maxRetries svc) n))"

text \<open>
  The validator for the schema a response format names: the one already in
  \<open>validators\<close> under that name, otherwise the one \<open>ajv.compile\<close> makes of the schema
  given (\<open>None\<close> when compiling throws).
\<close>

definition named_validator :: "service \<Rightarrow> net_env \<Rightarrow> ResponseFormatSpec \<Rightarrow> validator option" where
  "named_validator svc nenv responseFormat =
     (case validators svc (schema_name responseFormat) of
        Some v \<Rightarrow> Some v
      | None \<Rightarrow> compile nenv (schema responseFormat))"

text \<open>
  \<open>sendStructuredMessage\<close>. The service is returned as well, since a validator compiled
  on the way is stored in \<open>validators\<close>.
\<close>

definition sendStructuredMessage ::
  "service \<Rightarrow> net_env \<Rightarrow> OpenRouterMessage list \<Rightarrow> ResponseFormatSpec \<Rightarrow> send_opts \<Rightarrow> net
     \<Rightarrow> (exn + json) \<times> service \<times> net" where
  "sendStructuredMessage svc nenv messages responseFormat opts n =
     (if rf_type responseFormat \<noteq> u16 ''json_schema''
      then (Inl (ValidationError (u16 ''responseFormat must be json_schema'')), svc, n)
      else
        (case sendMessage svc nenv messages (opts\<lparr>opt_responseFormat := Some responseFormat\<rparr>) n of
           (Inl e, n1) \<Rightarrow> (Inl e, svc, n1)
         | (Inr res, n1) \<Rightarrow>
             (case named_validator svc nenv responseFormat of
                None \<Rightarrow> (Inl (ValidationError (u16 ''Invalid response schema provided'')), svc, n1)
              | Some validator \<Rightarrow>
                  (let svc1 = (case validators svc (schema_name responseFormat) of
                                 Some v \<Rightarrow> svc
                               | None \<Rightarrow>
                                   svc\<lparr>validators :=
                                         (validators svc)(schema_name responseFormat \<mapsto> validator)\<rparr>);
                       payload = nullish (opt_prop res (u16 ''output'')) res
                   in case validator payload of
                        (valid, errs) \<Rightarrow>
                          if \<not> valid
                          then (Inl (ResponseFormatError (u16 ''Response did not match schema'') errs),
                                svc1, n1)
                          else (Inr payload, svc1, n1)))))"

section \<open>Auxiliary definitions for the proofs\<close>

text \<open>The number a decimal rendering denotes; \<open>show_nat\<close> is injective because of it.\<close>

definition read_nat :: "string \<Rightarrow> nat" where
  "read_nat s = foldl (\<lambda>a c. 10 * a + (of_char c - 48)) 0 s"

text \<open>What the callback of the steps loop records for one step, \<open>None\<close> for nothing.\<close>

definition step_error :: "json \<Rightarrow> string option" where
  "step_error s =
     (case s of
        JStr t \<Rightarrow>
          if length t < 10 then Some ''step too short (min 10 chars)''
          else if length t > 500 then Some ''step too long (max 500 chars)''
          else None
      | _ \<Rightarrow> Some ''step must be a string'')"

text \<open>A recipe row with the given id is in the store.\<close>

definition persisted :: "jstring \<Rightarrow> world \<Rightarrow> bool" where
  "persisted recipeId w = list_ex (\<lambda>r. own r (u16 ''id'') = JStr recipeId) (recipes w)"

text \<open>The \<open>owner_user_id\<close> column of the recipe rows in the store.\<close>

definition recipe_owners :: "world \<Rightarrow> json list" where
  "recipe_owners w = map (\<lambda>r. own r (u16 ''owner_user_id'')) (recipes w)"

section \<open>Example inputs\<close>

text \<open>
  The example scenario of the specification, with the steps left open, and the
  collaborators' behaviours used to exercise the theorems.
\<close>

definition salmon_fields :: "json \<Rightarrow> (jstring \<times> json) list" where
  "salmon_fields steps =
     [(u16 ''title'', JStr (u16 ''Salmon with Spinach'')),
      (u16 ''raw_text'', JStr (u16 ''Salmon and spinach, cooked.'')),
      (u16 ''recipe_data'',
       JObj [(u16 ''title'', JStr (u16 ''Salmon with Spinach'')),
             (u16 ''ingredients'',
              JArr [JObj [(u16 ''name'', JStr (u16 ''salmon'')), (u16 ''quantity'', JNum (Fin 200))],
                    JObj [(u16 ''name'', JStr (u16 ''spinach'')), (u16 ''quantity'', JNum (Fin 150))]]),
             (u16 ''steps'', steps)])]"

definition salmon_recipe :: "json \<Rightarrow> json" where
  "salmon_recipe steps = JObj (salmon_fields steps)"

definition salmon_steps :: json where
  "salmon_steps =
     JArr [JStr (u16 ''Cook salmon for 10 minutes.''),
           JStr (u16 ''Saute spinach in olive oil for 3 minutes.'')]"

definition boundary_steps :: "json list" where
  "boundary_steps =
     [JStr (replicate 9 0x61), JStr (replicate 10 0x61), JStr (replicate 500 0x61),
      JStr (replicate 501 0x61)]"

definition salt :: "json \<Rightarrow> json" where
  "salt unit_id =
     JObj [(u16 ''name'', JStr (u16 ''salt'')), (u16 ''quantity'', JNum (Fin 1)),
           (u16 ''unit_id'', unit_id)]"



definition empty_world :: world where
  "empty_world =
     \<lparr>recipes = [], ingredients = [], recipe_audit = [], users = [], auth_user_map = [],
      calls = [], console = []\<rparr>"

definition happy_env :: env where
  "happy_env =
     \<lparr>uuidv4 = (\<lambda>i. u16 ''uuid-'' @ u16 (show_nat i)),
      now_iso = u16 ''2025-01-01T00:00:00.000Z'',
      auth_getUser = (\<lambda>token. Resolves (Reply (Some (Some (u16 ''auth-user-1''))) None)),
      select_mapping = (\<lambda>a. Resolves (Reply (Some [(u16 ''auth_user_id'', JStr a),
                                                      (u16 ''user_id'', JStr (u16 ''internal-user-7''))]) None)),
      insert_user = (\<lambda>r. Resolves (Reply (Some r) None)),
      insert_mapping = (\<lambda>r. Resolves (Reply (Some ()) None)),
      insert_recipe = (\<lambda>r. Resolves (Reply (Some r) None)),
      insert_ingredients = (\<lambda>rs. Resolves (Reply (Some rs) None)),
      delete_recipe = (\<lambda>i. Resolves (Reply (Some ()) None)),
      insert_audit = (\<lambda>r. Resolves (Reply (Some ()) None))\<rparr>"

definition failed_ingredients_env :: env where
  "failed_ingredients_env =
     happy_env\<lparr>insert_ingredients := (\<lambda>rs. Resolves (Reply None (Some (u16 ''insert failed''))))\<rparr>"

definition stuck_delete_env :: env where
  "stuck_delete_env =
     failed_ingredients_env\<lparr>delete_recipe := (\<lambda>i. Resolves (Reply None (Some (u16 ''delete failed''))))\<rparr>"

definition bearer_request :: request where
  "bearer_request = \<lparr>authorization = Some (u16 ''Bearer token-1''), json_body = None\<rparr>"

definition example_service :: service where
  "example_service =
     \<lparr>baseUrl = u16 ''https://api.openrouter.ai'',
      defaultModel = u16 ''tngtech/deepseek-r1t2-chimera:free'',
      timeoutMs = 15000, maxRetries = 3, apiKey = u16 ''key'',
      validators = Map.empty, systemMessage = None, isShutdown = False\<rparr>"

definition no_opts :: send_opts where
  "no_opts = \<lparr>opt_model = None, opt_params = None, opt_responseFormat = None, opt_timeoutMs = None\<rparr>"

definition hello :: "OpenRouterMessage list" where
  "hello = [\<lparr>role = User, content = u16 ''hello''\<rparr>]"

definition idle_net :: net where
  "idle_net = \<lparr>sent = [], draws = 0, waits = []\<rparr>"

definition rate_limited_env :: net_env where
  "rate_limited_env =
     \<lparr>fetch = (\<lambda>k. FetchResponse \<lparr>status = 429, retry_after = Some (u16 ''7''),
                                      body_text = Some [], body_json = None\<rparr>),
      random = (\<lambda>k. 1 / 2),
      compile = (\<lambda>s. None)\<rparr>"

definition offline_env :: net_env where
  "offline_env = \<lparr>fetch = (\<lambda>k. FetchFail), random = (\<lambda>k. 1 / 2), compile = (\<lambda>s. None)\<rparr>"

definition nutrition_format :: ResponseFormatSpec where
  "nutrition_format =
     \<lparr>rf_type = u16 ''json_schema'', schema_name = u16 ''ingredient_nutrition_list'',
      strict = True, schema = JObj [(u16 ''type'', JStr (u16 ''object''))]\<rparr>"

definition mismatch_env :: net_env where
  "mismatch_env =
     \<lparr>fetch = (\<lambda>k. FetchResponse \<lparr>status = 200, retry_after = None, body_text = None,
                                      body_json = Some (JObj [(u16 ''output'', JStr (u16 ''none''))])\<rparr>),
      random = (\<lambda>k. 1 / 2),
      compile = (\<lambda>s. Some (\<lambda>p. (False, JArr [JStr (u16 ''must be object'')])))\<rparr>"

section \<open>Properties of the request validator\<close>

subsection \<open>Decimal rendering is injective\<close>

lemma of_char_digit_char: "d < 10 \<Longrightarrow> of_char (digit_char d) - 48 = (d :: nat)"
  by (simp add: digit_char_def)

lemma read_show_nat: "read_nat (show_nat n) = n"
proof (induction n rule: show_nat.induct)
  case (1 n)
  show ?case
  proof (cases "n < 10")
    case True
    then show ?thesis
      by (subst show_nat.simps) (simp add: read_nat_def of_char_digit_char)
  next
    case False
    then have "read_nat (show_nat (n div 10)) = n div 10"
      using "1.IH" by simp
    then show ?thesis
      using False
      by (subst show_nat.simps) (simp add: read_nat_def of_char_digit_char)
  qed
qed

lemma show_nat_inj: "show_nat i = show_nat j \<Longrightarrow> i = j"
  by (metis read_show_nat)

lemma step_key_inj: "step_key i = step_key j \<longleftrightarrow> i = j"
  by (auto simp: step_key_def dest: show_nat_inj)

subsection \<open>The steps loop\<close>

lemma step_step_eq:
  "step_step s idx errors =
     Inr (case step_error s of None \<Rightarrow> errors | Some m \<Rightarrow> set_error (step_key idx) m errors)"
  by (cases s) (simp_all add: step_step_def step_error_def and_then_def)

lemma map_of_set_error: "map_of (set_error k v errors) = (map_of errors)(k \<mapsto> v)"
  by (simp add: set_error_def update_conv')

lemma set_error_not_Nil: "set_error k v errors \<noteq> []"
  by (cases errors) (simp_all add: set_error_def)

lemma steps_loop_map_of:
  "steps_loop xs k errors = Inr errors' \<Longrightarrow>
   map_of errors' (step_key i) =
     (if k \<le> i \<and> i < k + length xs \<and> step_error (xs ! (i - k)) \<noteq> None
      then step_error (xs ! (i - k)) else map_of errors (step_key i))"
proof (induction xs arbitrary: k errors)
  case Nil
  then show ?case by auto
next
  case (Cons x xs)
  let ?e1 = "case step_error x of None \<Rightarrow> errors | Some m \<Rightarrow> set_error (step_key k) m errors"
  from Cons.prems have rest: "steps_loop xs (Suc k) ?e1 = Inr errors'"
    by (simp add: step_step_eq and_then_def)
  have head: "map_of ?e1 (step_key i) =
      (if i = k \<and> step_error x \<noteq> None then step_error x else map_of errors (step_key i))"
    by (cases "step_error x") (auto simp: map_of_set_error step_key_inj)
  show ?case
  proof (cases "i \<le> k")
    case True
    then show ?thesis
      using Cons.IH [OF rest] head by (cases "i = k") auto
  next
    case False
    then have "xs ! (i - Suc k) = (x # xs) ! (i - k)"
      by (simp add: nth_Cons')
    then show ?thesis
      using Cons.IH [OF rest] head False by auto
  qed
qed

lemma steps_loop_other_key:
  "steps_loop xs k errors = Inr errors' \<Longrightarrow> \<forall>j. key \<noteq> step_key j \<Longrightarrow>
   map_of errors' key = map_of errors key"
proof (induction xs arbitrary: k errors)
  case Nil
  then show ?case by simp
next
  case (Cons x xs)
  let ?e1 = "case step_error x of None \<Rightarrow> errors | Some m \<Rightarrow> set_error (step_key k) m errors"
  from Cons.prems have rest: "steps_loop xs (Suc k) ?e1 = Inr errors'"
    by (simp add: step_step_eq and_then_def)
  have "map_of ?e1 key = map_of errors key"
    using Cons.prems(2) by (cases "step_error x") (auto simp: map_of_set_error)
  then show ?case
    using Cons.IH [OF rest Cons.prems(2)] by simp
qed

lemma steps_loop_Nil_iff:
  "steps_loop xs k errors = Inr errors' \<Longrightarrow>
   errors' = [] \<longleftrightarrow> errors = [] \<and> (\<forall>x \<in> set xs. step_error x = None)"
proof (induction xs arbitrary: k errors)
  case Nil
  then show ?case by auto
next
  case (Cons x xs)
  let ?e1 = "case step_error x of None \<Rightarrow> errors | Some m \<Rightarrow> set_error (step_key k) m errors"
  from Cons.prems have rest: "steps_loop xs (Suc k) ?e1 = Inr errors'"
    by (simp add: step_step_eq and_then_def)
  show ?case
    using Cons.IH [OF rest] by (cases "step_error x") (auto simp: set_error_not_Nil)
qed

lemma step_error_None_iff:
  "step_error x = None \<longleftrightarrow> (\<exists>s. x = JStr s \<and> 10 \<le> length s \<and> length s \<le> 500)"
  by (cases x) (auto simp: step_error_def)

lemma trim_Nil [simp]: "trim [] = []"
  by (simp add: trim_def)

lemma blank_eq: "blank x = Inr (case x of JStr s \<Rightarrow> trim s = [] | _ \<Rightarrow> True)"
  by (cases x) (auto simp: blank_def or_else_def and_then_def)

lemma get_prop_object: "typeof v = TObject \<Longrightarrow> v \<noteq> JNull \<Longrightarrow> \<exists>w. get_prop v k = Inr w"
  by (cases v) auto

lemma blank_nonblank: "nonblank x \<Longrightarrow> blank x = Inr False"
  by (cases x) (simp_all add: blank_eq nonblank_def)

lemma ingredients_loop_pass:
  "list_all (\<lambda>(idx, ing). validateIngredient ing idx = Inr None) (enumerate k xs) \<Longrightarrow>
   ingredients_loop xs k errors = Inr errors"
  by (induction xs arbitrary: k) (simp_all add: ingredient_step_def and_then_def)

lemma check_ingredients_pass:
  "ingredient_rules_pass (own rfs (u16 ''ingredients'')) \<Longrightarrow>
   check_ingredients (JObj rfs) errors = Inr errors"
  by (cases "own rfs (u16 ''ingredients'')")
     (simp_all add: ingredient_rules_pass_def check_ingredients_def and_then_def or_else_def
        ingredients_loop_pass)

lemma validate_other_rules_pass:
  assumes "other_rules_pass body" and "recipe_steps body = JArr xs"
    and "steps_loop xs 0 [] = Inr errs"
  shows "validateCreateRecipeCommand body = Inr (if errs = [] then Valid else Invalid errs)"
proof -
  from assms(1) obtain fs where body: "body = JObj fs"
    by (cases body) (simp_all add: other_rules_pass_def)
  from assms(1) body obtain t where t: "own fs (u16 ''title'') = JStr t" "trim t \<noteq> []" "length t \<le> 300"
    by (cases "own fs (u16 ''title'')") (simp_all add: other_rules_pass_def)
  from assms(1) body have raw: "nonblank (own fs (u16 ''raw_text''))"
    by (simp add: other_rules_pass_def)
  from assms(1) body obtain rfs where rd: "own fs (u16 ''recipe_data'') = JObj rfs"
    by (cases "own fs (u16 ''recipe_data'')") (simp_all add: other_rules_pass_def)
  from assms(1) body rd have rt: "nonblank (own rfs (u16 ''title''))"
    and ings: "ingredient_rules_pass (own rfs (u16 ''ingredients''))"
    by (simp_all add: other_rules_pass_def)
  from assms(2) body rd have steps: "own rfs (u16 ''steps'') = JArr xs"
    by (simp add: recipe_steps_def)
  have c1: "check_title (JStr t) [] = Inr []"
    using t by (simp add: check_title_def blank_eq and_then_def)
  have c2: "check_raw_text (own fs (u16 ''raw_text'')) [] = Inr []"
    using raw by (simp add: check_raw_text_def blank_nonblank and_then_def)
  have c3: "check_recipe_title (JObj rfs) [] = Inr []"
    using rt by (simp add: check_recipe_title_def blank_nonblank and_then_def)
  have c4: "check_steps (JObj rfs) [] = Inr errs"
    using steps assms(3) by (simp add: check_steps_def and_then_def)
  have c5: "check_recipe_data (JObj rfs) [] = Inr errs"
    using c3 c4 check_ingredients_pass [OF ings]
    by (simp add: check_recipe_data_def and_then_def)
  show ?thesis
    using body t(1) rd c1 c2 c5
    by (simp add: validateCreateRecipeCommand_def and_then_def)
qed

lemma steps_loop_total: "\<exists>r. steps_loop xs idx errors = Inr r"
  by (induction xs arbitrary: idx errors) (simp_all add: step_step_eq and_then_def)

text \<open>
  Claim C7. For every payload that passes all the other rules, \<open>recipe_data.steps\<close>
  is accepted exactly when every step is a string of 10 to 500 characters, both bounds
  included. A step string shorter than 10 (length 9, say) or longer than 500 (length 501)
  makes validation fail with the message stored under that step's own key
  \<open>recipe_data.steps[i]\<close>; a step string of length 10 to 500 leaves no message under
  its key.
\<close>

theorem steps_length_boundary:
  assumes "other_rules_pass body" and "recipe_steps body = JArr xs"
  shows "(validateCreateRecipeCommand body = Inr Valid \<longleftrightarrow>
            (\<forall>x \<in> set xs. \<exists>s. x = JStr s \<and> 10 \<le> length s \<and> length s \<le> 500))
         \<and> (\<forall>i s. i < length xs \<and> xs ! i = JStr s \<longrightarrow>
              (\<exists>r. validateCreateRecipeCommand body = Inr r \<and>
                 (length s < 10 \<longrightarrow>
                    (\<exists>errors. r = Invalid errors \<and>
                       map_of errors (''recipe_data.steps['' @ show_nat i @ '']'')
                         = Some ''step too short (min 10 chars)'')) \<and>
                 (500 < length s \<longrightarrow>
                    (\<exists>errors. r = Invalid errors \<and>
                       map_of errors (''recipe_data.steps['' @ show_nat i @ '']'')
                         = Some ''step too long (max 500 chars)'')) \<and>
                 (10 \<le> length s \<and> length s \<le> 500 \<longrightarrow>
                    (\<forall>errors. r = Invalid errors \<longrightarrow>
                       map_of errors (''recipe_data.steps['' @ show_nat i @ '']'') = None))))"
proof -
  obtain errs where loop: "steps_loop xs 0 [] = Inr errs"
    using steps_loop_total by blast
  have res: "validateCreateRecipeCommand body = Inr (if errs = [] then Valid else Invalid errs)"
    using validate_other_rules_pass [OF assms loop] .
  have empty: "errs = [] \<longleftrightarrow> (\<forall>x \<in> set xs. step_error x = None)"
    using steps_loop_Nil_iff [OF loop] by simp
  have first: "validateCreateRecipeCommand body = Inr Valid \<longleftrightarrow>
      (\<forall>x \<in> set xs. \<exists>s. x = JStr s \<and> 10 \<le> length s \<and> length s \<le> 500)"
    using res empty by (simp add: step_error_None_iff)
  have at: "map_of errs (step_key i) = step_error (xs ! i)" if "i < length xs" for i
    using steps_loop_map_of [OF loop, of i] that by (cases "step_error (xs ! i)") simp_all
  have second: "\<exists>r. validateCreateRecipeCommand body = Inr r \<and>
                 (length s < 10 \<longrightarrow>
                    (\<exists>errors. r = Invalid errors \<and>
                       map_of errors (''recipe_data.steps['' @ show_nat i @ '']'')
                         = Some ''step too short (min 10 chars)'')) \<and>
                 (500 < length s \<longrightarrow>
                    (\<exists>errors. r = Invalid errors \<and>
                       map_of errors (''recipe_data.steps['' @ show_nat i @ '']'')
                         = Some ''step too long (max 500 chars)'')) \<and>
                 (10 \<le> length s \<and> length s \<le> 500 \<longrightarrow>
                    (\<forall>errors. r = Invalid errors \<longrightarrow>
                       map_of errors (''recipe_data.steps['' @ show_nat i @ '']'') = None))"
    if i: "i < length xs" and s: "xs ! i = JStr s" for i s
  proof -
    have key: "map_of errs (''recipe_data.steps['' @ show_nat i @ '']'') = step_error (JStr s)"
      using at [OF i] s by (simp add: step_key_def)
    have bad: "errs \<noteq> []" if "step_error (JStr s) \<noteq> None"
      using that empty i s by (metis nth_mem)
    show ?thesis
    proof (cases "errs = []")
      case True
      then have "step_error (JStr s) = None" using bad by blast
      then show ?thesis
        using res True by (auto simp: step_error_def split: if_splits)
    next
      case False
      then show ?thesis
        using res key by (auto simp: step_error_def)
    qed
  qed
  show ?thesis
    using first second by blast
qed

lemma get_prop_truthy_object:
  "get_prop item k = Inr u \<Longrightarrow> truthy u \<Longrightarrow> \<exists>fs. item = JObj fs"
  by (cases item) auto

lemma ingredient_msg_eq: "ingredient_msg idx a = ingredient_msg idx b \<longleftrightarrow> a = b"
  by (simp add: ingredient_msg_def)

lemma isUuid_iff: "isUuid u \<longleftrightarrow> (\<exists>s. u = JStr s \<and> length s = 36 \<and> list_all uuid_char s)"
  by (cases u) (simp_all add: uuid_regex_test_def)

text \<open>
  Claim C8, as amended. For every ingredient entry whose \<open>unit_id\<close> is truthy, validation
  accepts the entry only if the \<open>unit_id\<close> is a string of exactly 36 characters, each a
  hexadecimal digit or a hyphen; a truthy \<open>unit_id\<close> that is not such a string makes
  \<open>validateIngredient\<close> return an error for that ingredient's index (the \<open>unit_id\<close> error
  unless the name or the quantity is already at fault). A falsy \<open>unit_id\<close> (\<open>undefined\<close>,
  \<open>null\<close>, \<open>false\<close>, \<open>0\<close>, \<open>NaN\<close>, the empty string) counts as absent and never raises
  the \<open>unit_id\<close> error.
\<close>

theorem unit_id_rule:
  assumes "get_prop item (u16 ''unit_id'') = Inr u"
  shows "(truthy u \<longrightarrow>
            (validateIngredient item idx = Inr None \<longrightarrow>
               (\<exists>s. u = JStr s \<and> length s = 36 \<and> list_all uuid_char s)) \<and>
            (\<not> isUuid u \<longrightarrow>
               validateIngredient item idx \<in>
                 {Inr (Some (ingredient_msg idx ''.name is required'')),
                  Inr (Some (ingredient_msg idx ''.name too long'')),
                  Inr (Some (ingredient_msg idx ''.quantity must be a number > 0'')),
                  Inr (Some (ingredient_msg idx ''.unit_id must be a valid UUID''))}))
       \<and> (\<not> truthy u \<longrightarrow>
            validateIngredient item idx \<noteq> Inr (Some (ingredient_msg idx ''.unit_id must be a valid UUID'')))"
proof (cases "typeof item \<noteq> TObject \<or> item = JNull")
  case True
  then have "u = JUndefined"
    using assms by (cases item) auto
  then show ?thesis
    using True by (simp add: validateIngredient_def ingredient_msg_eq)
next
  case False
  then have nonnull: "typeof item = TObject" "item \<noteq> JNull" by auto
  obtain name where n: "get_prop item (u16 ''name'') = Inr name"
    using get_prop_object [OF nonnull] by blast
  obtain q where q: "get_prop item (u16 ''quantity'') = Inr q"
    using get_prop_object [OF nonnull] by blast
  obtain t where t: "get_prop item (u16 ''unit_text'') = Inr t"
    using get_prop_object [OF nonnull] by blast
  obtain m where m: "get_prop item (u16 ''normalized_name'') = Inr m"
    using get_prop_object [OF nonnull] by blast
  show ?thesis
    using False assms n q t m
    by (cases name)
       (auto simp: validateIngredient_def and_then_def blank_eq ingredient_msg_eq isUuid_iff)
qed

lemma check_title_Nil:
  "check_title t errors = Inr [] \<Longrightarrow>
   errors = [] \<and> (\<exists>s. t = JStr s \<and> trim s \<noteq> [] \<and> length s \<le> 300)"
  by (cases t) (auto simp: check_title_def and_then_def blank_eq set_error_not_Nil split: if_splits)

lemma check_raw_text_Nil:
  "check_raw_text r errors = Inr [] \<Longrightarrow> errors = [] \<and> nonblank r"
  by (cases r) (auto simp: check_raw_text_def and_then_def blank_eq nonblank_def set_error_not_Nil
      split: if_splits)

lemma check_recipe_title_Nil:
  "check_recipe_title (JObj rfs) errors = Inr [] \<Longrightarrow>
   errors = [] \<and> nonblank (own rfs (u16 ''title''))"
  by (cases "own rfs (u16 ''title'')")
     (auto simp: check_recipe_title_def and_then_def blank_eq nonblank_def set_error_not_Nil
      split: if_splits)

lemma validateIngredient_total: "\<exists>r. validateIngredient item idx = Inr r"
proof (cases "typeof item \<noteq> TObject \<or> item = JNull")
  case True
  then show ?thesis by (simp add: validateIngredient_def)
next
  case False
  then have props: "\<And>k. \<exists>w. get_prop item k = Inr w"
    using get_prop_object by blast
  obtain name where n: "get_prop item (u16 ''name'') = Inr name" using props by blast
  obtain q where q: "get_prop item (u16 ''quantity'') = Inr q" using props by blast
  obtain u where u: "get_prop item (u16 ''unit_id'') = Inr u" using props by blast
  obtain t where t: "get_prop item (u16 ''unit_text'') = Inr t" using props by blast
  obtain m where m: "get_prop item (u16 ''normalized_name'') = Inr m" using props by blast
  show ?thesis
    using False n q u t m
    by (cases name) (simp_all add: validateIngredient_def and_then_def blank_eq)
qed

lemma ingredients_loop_Nil:
  "ingredients_loop xs k errors = Inr [] \<Longrightarrow>
   errors = [] \<and> list_all (\<lambda>(idx, ing). validateIngredient ing idx = Inr None) (enumerate k xs)"
proof (induction xs arbitrary: k errors)
  case Nil
  then show ?case by simp
next
  case (Cons x xs)
  obtain e where e: "validateIngredient x k = Inr e"
    using validateIngredient_total by blast
  show ?case
  proof (cases e)
    case None
    then show ?thesis
      using Cons.prems e Cons.IH [of "Suc k" errors]
      by (simp add: ingredient_step_def and_then_def)
  next
    case (Some m)
    then have "ingredients_loop xs (Suc k)
        (set_error (''recipe_data.ingredients['' @ show_nat k @ '']'') m errors) = Inr []"
      using Cons.prems e by (simp add: ingredient_step_def and_then_def)
    then show ?thesis
      using Cons.IH set_error_not_Nil by blast
  qed
qed

lemma ingredients_loop_total: "\<exists>r. ingredients_loop xs idx errors = Inr r"
proof (induction xs arbitrary: idx errors)
  case Nil
  show ?case by simp
next
  case (Cons x xs)
  obtain e where "validateIngredient x idx = Inr e"
    using validateIngredient_total by blast
  then show ?case
    using Cons.IH by (cases e) (simp_all add: ingredient_step_def and_then_def)
qed

lemma check_ingredients_Nil:
  "check_ingredients (JObj rfs) errors = Inr [] \<Longrightarrow>
   errors = [] \<and> ingredient_rules_pass (own rfs (u16 ''ingredients''))"
  by (cases "own rfs (u16 ''ingredients'')")
     (auto simp: check_ingredients_def and_then_def or_else_def ingredient_rules_pass_def
        set_error_not_Nil dest: ingredients_loop_Nil split: if_splits)

lemma check_steps_Nil:
  "check_steps (JObj rfs) errors = Inr [] \<Longrightarrow>
   errors = [] \<and> (\<exists>xs. own rfs (u16 ''steps'') = JArr xs \<and> (\<forall>x \<in> set xs. step_error x = None))"
  by (cases "own rfs (u16 ''steps'')")
     (auto simp: check_steps_def and_then_def set_error_not_Nil dest: steps_loop_Nil_iff
        split: if_splits)

lemma check_recipe_title_total_obj: "\<exists>r. check_recipe_title (JObj rfs) errors = Inr r"
  by (simp add: check_recipe_title_def and_then_def blank_eq)

lemma check_ingredients_total_obj: "\<exists>r. check_ingredients (JObj rfs) errors = Inr r"
  using ingredients_loop_total
  by (cases "own rfs (u16 ''ingredients'')")
     (simp_all add: check_ingredients_def and_then_def or_else_def)

lemma check_recipe_data_Nil:
  "check_recipe_data rd errors = Inr [] \<Longrightarrow>
   errors = [] \<and>
   (\<exists>rfs xs. rd = JObj rfs \<and> nonblank (own rfs (u16 ''title'')) \<and>
      ingredient_rules_pass (own rfs (u16 ''ingredients'')) \<and>
      own rfs (u16 ''steps'') = JArr xs \<and> (\<forall>x \<in> set xs. step_error x = None))"
proof (cases rd)
  case (JObj rfs)
  assume a: "check_recipe_data rd errors = Inr []"
  obtain e1 where e1: "check_recipe_title (JObj rfs) errors = Inr e1"
    using check_recipe_title_total_obj by blast
  obtain e2 where e2: "check_ingredients (JObj rfs) e1 = Inr e2"
    using check_ingredients_total_obj by blast
  have e3: "check_steps (JObj rfs) e2 = Inr []"
    using a JObj e1 e2 by (simp add: check_recipe_data_def and_then_def)
  from check_steps_Nil [OF e3] have s: "e2 = []"
    "\<exists>xs. own rfs (u16 ''steps'') = JArr xs \<and> (\<forall>x \<in> set xs. step_error x = None)" by auto
  from check_ingredients_Nil e2 s(1) have i: "e1 = []"
    "ingredient_rules_pass (own rfs (u16 ''ingredients''))" by auto
  from check_recipe_title_Nil e1 i(1) have t: "errors = []" "nonblank (own rfs (u16 ''title''))"
    by auto
  show ?thesis using JObj s i t by auto
next
  case (JArr xs)
  assume a: "check_recipe_data rd errors = Inr []"
  have "check_recipe_title (JArr xs) errors = Inr (set_error ''recipe_data.title'' ''recipe_data.title required'' errors)"
    by (simp add: check_recipe_title_def and_then_def blank_eq)
  moreover have "check_ingredients (JArr xs) e = Inr (set_error ''recipe_data.ingredients'' ''ingredients must be a non-empty array'' e)" for e
    by (simp add: check_ingredients_def and_then_def or_else_def)
  moreover have "check_steps (JArr xs) e = Inr (set_error ''recipe_data.steps'' ''steps must be an array of strings'' e)" for e
    by (simp add: check_steps_def and_then_def)
  ultimately show ?thesis
    using a JArr by (simp add: check_recipe_data_def and_then_def set_error_not_Nil)
qed (simp_all add: check_recipe_data_def set_error_not_Nil)

lemma check_title_total: "\<exists>r. check_title t errors = Inr r"
  by (cases t) (simp_all add: check_title_def and_then_def blank_eq)

lemma check_raw_text_total: "\<exists>r. check_raw_text t errors = Inr r"
  by (simp add: check_raw_text_def and_then_def blank_eq)

lemma valid_shape:
  assumes "validateCreateRecipeCommand body = Inr Valid"
  shows "other_rules_pass body \<and>
         (\<exists>xs. recipe_steps body = JArr xs \<and> (\<forall>x \<in> set xs. step_error x = None))"
proof (cases body)
  case (JObj fs)
  obtain e1 where e1: "check_title (own fs (u16 ''title'')) [] = Inr e1"
    using check_title_total by blast
  obtain e2 where e2: "check_raw_text (own fs (u16 ''raw_text'')) e1 = Inr e2"
    using check_raw_text_total by blast
  have e3: "check_recipe_data (own fs (u16 ''recipe_data'')) e2 = Inr []"
    using assms JObj e1 e2
    by (auto simp: validateCreateRecipeCommand_def and_then_def split: sum.splits if_splits)
  from check_recipe_data_Nil [OF e3] obtain rfs xs where r: "e2 = []"
    "own fs (u16 ''recipe_data'') = JObj rfs" "nonblank (own rfs (u16 ''title''))"
    "ingredient_rules_pass (own rfs (u16 ''ingredients''))"
    "own rfs (u16 ''steps'') = JArr xs" "\<forall>x \<in> set xs. step_error x = None" by auto
  from check_raw_text_Nil e2 r(1) have w: "e1 = []" "nonblank (own fs (u16 ''raw_text''))" by auto
  from check_title_Nil e1 w(1) obtain s where t: "own fs (u16 ''title'') = JStr s" "trim s \<noteq> []"
    "length s \<le> 300" by auto
  show ?thesis
    using JObj r w t by (simp add: other_rules_pass_def recipe_steps_def)
next
  case (JArr xs)
  have "check_title JUndefined [] = Inr (set_error ''title'' ''title is required'' [])"
    by (simp add: check_title_def and_then_def blank_eq)
  moreover obtain e2 where "check_raw_text JUndefined (set_error ''title'' ''title is required'' []) = Inr e2" "e2 \<noteq> []"
    by (simp add: check_raw_text_def and_then_def blank_eq set_error_not_Nil)
  moreover obtain e3 where "check_recipe_data JUndefined e2 = Inr e3" "e3 \<noteq> []"
    by (simp add: check_recipe_data_def set_error_not_Nil)
  ultimately show ?thesis
    using assms JArr by (simp add: validateCreateRecipeCommand_def and_then_def)
qed (use assms in \<open>simp_all add: validateCreateRecipeCommand_def\<close>)

lemma show_nat_digit: "n < 10 \<Longrightarrow> show_nat n = [digit_char n]"
  by (subst show_nat.simps) simp

lemma digit_chars:
  "char_of (48 :: nat) = CHR ''0''" "char_of (49 :: nat) = CHR ''1''"
  "char_of (50 :: nat) = CHR ''2''" "char_of (51 :: nat) = CHR ''3''"
  by code_simp+

lemma show_nat_small [simp]:
  "show_nat 0 = ''0''" "show_nat 1 = ''1''" "show_nat (Suc 0) = ''1''" "show_nat 2 = ''2''"
  "show_nat 3 = ''3''"
  by (simp_all add: show_nat_digit digit_char_def digit_chars)

lemma trim_letters [simp]:
  "\<not> is_space c \<Longrightarrow> \<not> is_space (last (c # cs)) \<Longrightarrow> trim (c # cs) = c # cs"
proof -
  assume a: "\<not> is_space c" and b: "\<not> is_space (last (c # cs))"
  have "dropWhile is_space (rev (c # cs)) = rev (c # cs)"
    using b by (subst dropWhile_eq_self_iff) (metis hd_rev rev.simps(2))
  then show ?thesis
    using a by (simp add: trim_def)
qed

lemma salmon_other_rules: "other_rules_pass (salmon_recipe steps)"
  by (simp add: other_rules_pass_def salmon_recipe_def salmon_fields_def own_def u16_def
      nonblank_def ingredient_rules_pass_def validateIngredient_def and_then_def blank_def
      or_else_def is_space_def enumerate_eq_zip)

lemma salmon_recipe_steps: "recipe_steps (salmon_recipe steps) = steps"
  by (simp add: recipe_steps_def salmon_recipe_def salmon_fields_def own_def u16_def)

text \<open>
  The boundary on the example recipe: steps of lengths 9, 10, 500 and 501 give messages
  for indices 0 and 3 only, and the example's own steps are accepted.
\<close>

theorem steps_length_boundary_witness:
  "other_rules_pass (salmon_recipe (JArr boundary_steps))
   \<and> recipe_steps (salmon_recipe (JArr boundary_steps)) = JArr boundary_steps
   \<and> (\<exists>errors. validateCreateRecipeCommand (salmon_recipe (JArr boundary_steps)) = Inr (Invalid errors)
         \<and> map_of errors ''recipe_data.steps[0]'' = Some ''step too short (min 10 chars)''
         \<and> map_of errors ''recipe_data.steps[1]'' = None
         \<and> map_of errors ''recipe_data.steps[2]'' = None
         \<and> map_of errors ''recipe_data.steps[3]'' = Some ''step too long (max 500 chars)'')
   \<and> validateCreateRecipeCommand (salmon_recipe salmon_steps) = Inr Valid"
proof -
  let ?b = "salmon_recipe (JArr boundary_steps)"
  have h1: "other_rules_pass ?b"
    by (rule salmon_other_rules)
  have h2: "recipe_steps ?b = JArr boundary_steps"
    by (rule salmon_recipe_steps)
  note main = steps_length_boundary [OF h1 h2]
  from main have at: "\<And>i s. i < length boundary_steps \<Longrightarrow> boundary_steps ! i = JStr s \<Longrightarrow>
      (\<exists>r. validateCreateRecipeCommand ?b = Inr r \<and>
         (length s < 10 \<longrightarrow>
            (\<exists>errors. r = Invalid errors \<and>
               map_of errors (''recipe_data.steps['' @ show_nat i @ '']'')
                 = Some ''step too short (min 10 chars)'')) \<and>
         (500 < length s \<longrightarrow>
            (\<exists>errors. r = Invalid errors \<and>
               map_of errors (''recipe_data.steps['' @ show_nat i @ '']'')
                 = Some ''step too long (max 500 chars)'')) \<and>
         (10 \<le> length s \<and> length s \<le> 500 \<longrightarrow>
            (\<forall>errors. r = Invalid errors \<longrightarrow>
               map_of errors (''recipe_data.steps['' @ show_nat i @ '']'') = None)))"
    by blast
  from at [of 0 "replicate 9 0x61"] obtain errors where
    e: "validateCreateRecipeCommand ?b = Inr (Invalid errors)"
    and e0: "map_of errors ''recipe_data.steps[0]'' = Some ''step too short (min 10 chars)''"
    by (auto simp: boundary_steps_def)
  from at [of 1 "replicate 10 0x61"] e
  have e1: "map_of errors ''recipe_data.steps[1]'' = None"
    by (auto simp: boundary_steps_def)
  from at [of 2 "replicate 500 0x61"] e
  have e2: "map_of errors ''recipe_data.steps[2]'' = None"
    by (auto simp: boundary_steps_def)
  from at [of 3 "replicate 501 0x61"] e
  have e3: "map_of errors ''recipe_data.steps[3]'' = Some ''step too long (max 500 chars)''"
    by (auto simp: boundary_steps_def)
  have g1: "other_rules_pass (salmon_recipe salmon_steps)"
    by (rule salmon_other_rules)
  have g2: "recipe_steps (salmon_recipe salmon_steps) =
      JArr [JStr (u16 ''Cook salmon for 10 minutes.''),
            JStr (u16 ''Saute spinach in olive oil for 3 minutes.'')]"
    by (simp add: salmon_recipe_steps salmon_steps_def)
  have ok: "validateCreateRecipeCommand (salmon_recipe salmon_steps) = Inr Valid"
    using steps_length_boundary [OF g1 g2] by (simp add: u16_def)
  show ?thesis
    using h1 h2 e e0 e1 e2 e3 ok by blast
qed

lemma salt_validates:
  "validateIngredient (salt u) idx =
     (if truthy u \<and> \<not> isUuid u
      then Inr (Some (ingredient_msg idx ''.unit_id must be a valid UUID''))
      else Inr None)"
  by (simp add: salt_def validateIngredient_def and_then_def own_def u16_def blank_def
      or_else_def is_space_def)

text \<open>
  Claim C8 as stated fails: an entry that carries the empty string as its \<open>unit_id\<close> is
  accepted, and the empty string is not a well-formed UUID. The guard
  \<open>item.unit_id && !isUuid(item.unit_id)\<close> skips every falsy value.
\<close>

theorem unit_id_counterexample:
  "get_prop (salt (JStr [])) (u16 ''unit_id'') = Inr (JStr [])
   \<and> validateIngredient (salt (JStr [])) 0 = Inr None
   \<and> \<not> well_formed_uuid (JStr [])"
  by (simp add: salt_validates well_formed_uuid_def) (simp add: salt_def own_def u16_def)

text \<open>
  The regular expression of \<open>isUuid\<close> asks for 36 characters from the hexadecimal digits
  and the hyphen in any arrangement, so 36 hyphens pass it as well.
\<close>

lemma hyphens_pass_isUuid:
  "validateIngredient (salt (JStr (replicate 36 0x2D))) 0 = Inr None
   \<and> \<not> well_formed_uuid (JStr (replicate 36 0x2D))"
proof -
  have "(36 :: nat) = Suc 35"
    by simp
  then have first: "replicate 36 (0x2D :: 16 word) = 0x2D # replicate 35 0x2D"
    by (simp only: replicate_Suc)
  have "\<not> well_formed_uuid (JStr (replicate 36 0x2D))"
    unfolding first by (simp add: well_formed_uuid_def hex_digit_def)
  moreover have "isUuid (JStr (replicate 36 0x2D))"
    by (simp add: uuid_regex_test_def list_all_iff uuid_char_def)
  ultimately show ?thesis
    by (simp add: salt_validates)
qed

text \<open>
  The rule on three entries: \<open>cup\<close> is refused with the \<open>unit_id\<close> message, a UUID in
  its canonical form is accepted, and \<open>null\<close> is not checked.
\<close>

theorem unit_id_rule_witness:
  "get_prop (salt (JStr (u16 ''cup''))) (u16 ''unit_id'') = Inr (JStr (u16 ''cup''))
   \<and> truthy (JStr (u16 ''cup'')) \<and> \<not> isUuid (JStr (u16 ''cup''))
   \<and> validateIngredient (salt (JStr (u16 ''cup''))) 0 =
       Inr (Some ''ingredients[0].unit_id must be a valid UUID'')
   \<and> get_prop (salt (JStr (u16 ''123e4567-e89b-12d3-a456-426614174000''))) (u16 ''unit_id'')
       = Inr (JStr (u16 ''123e4567-e89b-12d3-a456-426614174000''))
   \<and> validateIngredient (salt (JStr (u16 ''123e4567-e89b-12d3-a456-426614174000''))) 0 = Inr None
   \<and> get_prop (salt JNull) (u16 ''unit_id'') = Inr JNull
   \<and> validateIngredient (salt JNull) 0 = Inr None"
proof -
  have p: "get_prop (salt u) (u16 ''unit_id'') = Inr u" for u
    by (simp add: salt_def own_def u16_def)
  have cup: "truthy (JStr (u16 ''cup''))" "\<not> isUuid (JStr (u16 ''cup''))"
    by (simp_all add: u16_def uuid_regex_test_def)
  have uuid: "isUuid (JStr (u16 ''123e4567-e89b-12d3-a456-426614174000''))"
    by (simp add: u16_def uuid_regex_test_def uuid_char_def)
  show ?thesis
    using unit_id_rule [OF p, of "JStr (u16 ''cup'')" 0] cup uuid p
    by (simp add: salt_validates ingredient_msg_def u16_def)
qed

lemma check_steps_total_obj: "\<exists>r. check_steps (JObj rfs) errors = Inr r"
  using steps_loop_total
  by (cases "own rfs (u16 ''steps'')") (simp_all add: check_steps_def and_then_def)



lemma ingredients_key_not_step: "''recipe_data.ingredients'' \<noteq> step_key j"
  by (simp add: step_key_def)

lemma check_steps_keeps_ingredients_key:
  assumes "check_steps (JObj rfs) errors = Inr errors'"
  shows "map_of errors' ''recipe_data.ingredients'' = map_of errors ''recipe_data.ingredients''"
proof (cases "own rfs (u16 ''steps'')")
  case (JArr xs)
  then have "steps_loop xs 0 errors = Inr errors'"
    using assms by (simp add: check_steps_def and_then_def)
  then show ?thesis
    using steps_loop_other_key ingredients_key_not_step by blast
qed (use assms in \<open>auto simp: check_steps_def and_then_def map_of_set_error\<close>)

lemma empty_ingredients_rejected:
  assumes "own fs (u16 ''recipe_data'') = JObj rfs" and "own rfs (u16 ''ingredients'') = JArr []"
  shows "\<exists>errors. validateCreateRecipeCommand (JObj fs) = Inr (Invalid errors) \<and>
           map_of errors ''recipe_data.ingredients'' = Some ''ingredients must be a non-empty array''"
proof -
  obtain e1 where e1: "check_title (own fs (u16 ''title'')) [] = Inr e1"
    using check_title_total by blast
  obtain e2 where e2: "check_raw_text (own fs (u16 ''raw_text'')) e1 = Inr e2"
    using check_raw_text_total by blast
  obtain e3 where e3: "check_recipe_title (JObj rfs) e2 = Inr e3"
    using check_recipe_title_total_obj by blast
  let ?e4 = "set_error ''recipe_data.ingredients'' ''ingredients must be a non-empty array'' e3"
  have e4: "check_ingredients (JObj rfs) e3 = Inr ?e4"
    using assms(2) by (simp add: check_ingredients_def and_then_def or_else_def)
  obtain e5 where e5: "check_steps (JObj rfs) ?e4 = Inr e5"
    using check_steps_total_obj by blast
  have key: "map_of e5 ''recipe_data.ingredients'' = Some ''ingredients must be a non-empty array''"
    using check_steps_keeps_ingredients_key [OF e5] by (simp add: map_of_set_error)
  then have "e5 \<noteq> []"
    by auto
  then show ?thesis
    using assms(1) e1 e2 e3 e4 e5 key
    by (simp add: validateCreateRecipeCommand_def check_recipe_data_def and_then_def)
qed

text \<open>
  Claim C10. Every payload that passes all the other rules and whose
  \<open>recipe_data.steps\<close> is the empty array is accepted: the steps array need not hold any
  element. The \<open>ingredients\<close> array must: with an empty \<open>ingredients\<close> array the result
  is a failure that carries the message \<open>ingredients must be a non-empty array\<close>.
\<close>

theorem empty_steps_accepted:
  "(other_rules_pass body \<and> recipe_steps body = JArr [] \<longrightarrow>
      validateCreateRecipeCommand body = Inr Valid)
   \<and> (own fs (u16 ''recipe_data'') = JObj rfs \<and> own rfs (u16 ''ingredients'') = JArr [] \<longrightarrow>
      (\<exists>errors. validateCreateRecipeCommand (JObj fs) = Inr (Invalid errors) \<and>
         map_of errors ''recipe_data.ingredients'' = Some ''ingredients must be a non-empty array''))"
proof -
  have "steps_loop [] 0 [] = Inr []"
    by simp
  then have "validateCreateRecipeCommand body = Inr Valid"
    if "other_rules_pass body" "recipe_steps body = JArr []"
    using validate_other_rules_pass [OF that] by simp
  then show ?thesis
    using empty_ingredients_rejected by blast
qed

theorem empty_steps_accepted_witness:
  "other_rules_pass (salmon_recipe (JArr [])) \<and> recipe_steps (salmon_recipe (JArr [])) = JArr []
   \<and> validateCreateRecipeCommand (salmon_recipe (JArr [])) = Inr Valid
   \<and> (\<exists>errors.
         validateCreateRecipeCommand
           (JObj [(u16 ''recipe_data'', JObj [(u16 ''ingredients'', JArr []), (u16 ''steps'', JArr [])])])
           = Inr (Invalid errors)
         \<and> map_of errors ''recipe_data.ingredients'' = Some ''ingredients must be a non-empty array'')"
proof -
  let ?rfs = "[(u16 ''ingredients'', JArr []), (u16 ''steps'', JArr [])]"
  let ?fs = "[(u16 ''recipe_data'', JObj ?rfs)]"
  note main = empty_steps_accepted [of "salmon_recipe (JArr [])" ?fs ?rfs]
  have "validateCreateRecipeCommand (salmon_recipe (JArr [])) = Inr Valid"
    using main salmon_other_rules salmon_recipe_steps by blast
  moreover have "own ?fs (u16 ''recipe_data'') = JObj ?rfs" "own ?rfs (u16 ''ingredients'') = JArr []"
    by (simp_all add: own_def)
  then have "\<exists>errors. validateCreateRecipeCommand (JObj ?fs) = Inr (Invalid errors)
         \<and> map_of errors ''recipe_data.ingredients'' = Some ''ingredients must be a non-empty array''"
    using main by blast
  ultimately show ?thesis
    using salmon_other_rules salmon_recipe_steps by blast
qed

subsection \<open>The accepted inputs\<close>










section \<open>Properties of createRecipe and of the handler\<close>

lemma validateIngredient_None_object:
  "validateIngredient x idx = Inr None \<Longrightarrow> \<exists>fs. x = JObj fs"
  by (cases x) (simp_all add: validateIngredient_def and_then_def blank_eq)

lemma ingredient_rows_total:
  "list_all (\<lambda>(idx, ing). validateIngredient ing idx = Inr None) (enumerate k xs) \<Longrightarrow>
   \<exists>rs. ingredient_rows env recipeId i xs = Inr rs"
proof (induction xs arbitrary: k i)
  case Nil
  show ?case by simp
next
  case (Cons x xs)
  from Cons.prems have "validateIngredient x k = Inr None"
    by simp
  then obtain fs where "x = JObj fs"
    using validateIngredient_None_object by blast
  moreover obtain rs where "ingredient_rows env recipeId (Suc i) xs = Inr rs"
    using Cons.IH [of "Suc k" "Suc i"] Cons.prems by auto
  ultimately show ?case
    by (simp add: ingredient_row_def and_then_def)
qed

lemma valid_payloads:
  assumes "validateCreateRecipeCommand cmd = Inr Valid"
  shows "\<exists>row payload rd. recipe_insert_payload env userId cmd = Inr row \<and>
           ingredientsPayload env recipeId cmd = Inr payload \<and>
           get_prop cmd (u16 ''recipe_data'') = Inr rd \<and>
           (\<exists>t. get_prop cmd (u16 ''title'') = Inr t)"
proof -
  from valid_shape [OF assms] have o: "other_rules_pass cmd" by simp
  then obtain fs where cmd: "cmd = JObj fs"
    by (cases cmd) (simp_all add: other_rules_pass_def)
  from o cmd obtain rfs where rd: "own fs (u16 ''recipe_data'') = JObj rfs"
    by (cases "own fs (u16 ''recipe_data'')") (simp_all add: other_rules_pass_def)
  from o cmd rd have "ingredient_rules_pass (own rfs (u16 ''ingredients''))"
    by (simp add: other_rules_pass_def)
  then obtain xs where xs: "own rfs (u16 ''ingredients'') = JArr xs"
    "list_all (\<lambda>(idx, ing). validateIngredient ing idx = Inr None) (enumerate 0 xs)"
    by (cases "own rfs (u16 ''ingredients'')") (simp_all add: ingredient_rules_pass_def)
  obtain rs where "ingredient_rows env recipeId 0 xs = Inr rs"
    using ingredient_rows_total [OF xs(2)] by blast
  then show ?thesis
    using cmd rd xs(1)
    by (simp add: recipe_insert_payload_def ingredientsPayload_def and_then_def)
qed

lemma own_update: "own (AList.update k v fs) k' = (if k' = k then v else own fs k')"
  by (simp add: own_def update_conv')

lemma assemble_response_props:
  "get_prop (assemble_response recipeRow rd ings) (u16 ''recipe_data'') = Inr rd"
  "get_prop (assemble_response recipeRow rd ings) (u16 ''cached_nutrition'') = Inr JNull"
  by (simp_all add: assemble_response_def own_update u16_def)

text \<open>
  Claim C3. For every valid create-recipe input on which the recipe insert and the
  ingredient bulk insert both succeed, \<open>createRecipe\<close> returns a response whose
  \<open>recipe_data\<close> is exactly the submitted \<open>recipe_data\<close> and whose \<open>cached_nutrition\<close> is
  \<open>null\<close>, whatever row the store returned and whatever happens to the audit insert.
\<close>

theorem created_recipe_response:
  assumes valid: "validateCreateRecipeCommand cmd = Inr Valid"
    and recipe_ok: "\<And>row. recipe_insert_payload env userId cmd = Inr row \<Longrightarrow>
          \<exists>recipeRow. insert_recipe env row = Resolves (Reply (Some recipeRow) None)"
    and ingredients_ok: "\<And>payload. ingredientsPayload env (uuidv4 env 0) cmd = Inr payload \<Longrightarrow>
          \<exists>d. insert_ingredients env payload = Resolves (Reply d None)"
  shows "\<exists>response w'. createRecipe env userId cmd w = (Inr response, w') \<and>
           get_prop response (u16 ''recipe_data'') = get_prop cmd (u16 ''recipe_data'') \<and>
           get_prop response (u16 ''cached_nutrition'') = Inr JNull"
proof -
  obtain row payload rd where p: "recipe_insert_payload env userId cmd = Inr row"
    "ingredientsPayload env (uuidv4 env 0) cmd = Inr payload"
    "get_prop cmd (u16 ''recipe_data'') = Inr rd"
    using valid_payloads [OF valid] by blast
  obtain recipeRow where r: "insert_recipe env row = Resolves (Reply (Some recipeRow) None)"
    using recipe_ok [OF p(1)] by blast
  obtain d where i: "insert_ingredients env payload = Resolves (Reply d None)"
    using ingredients_ok [OF p(2)] by blast
  show ?thesis
    using p r i
    by (simp add: createRecipe_def db_insert_recipe_def db_insert_ingredients_def Let_def
        assemble_response_props)
qed

text \<open>
  Claim C1, as amended. For every owner id and every command, if the recipe insert
  succeeds and the ingredient bulk insert then reports an error, \<open>createRecipe\<close> issues
  exactly three calls, the recipe insert, the ingredient insert and a delete of the recipe
  row it has just inserted, and then throws; it never returns normally. It throws the
  \<open>Failed to insert ingredients\<close> error whenever the delete call resolves. The recipe row
  is no longer persisted when the delete takes effect; the outcome of the delete is not
  looked at.
\<close>

theorem compensating_delete:
  assumes "recipe_insert_payload env userId cmd = Inr row"
    and "insert_recipe env row = Resolves (Reply (Some recipeRow) None)"
    and "ingredientsPayload env (uuidv4 env 0) cmd = Inr payload"
    and "insert_ingredients env payload = Resolves (Reply d (Some m))"
    and "createRecipe env userId cmd w = (result, w')"
  shows "calls w' = calls w @ [InsertRecipe row, InsertIngredients payload, DeleteRecipe (uuidv4 env 0)]
       \<and> (\<exists>e. result = Inl e)
       \<and> (\<forall>rep. delete_recipe env (uuidv4 env 0) = Resolves rep \<longrightarrow>
             result = Inl (Error (u16 ''Failed to insert ingredients: '' @ m)))
       \<and> (applied (delete_recipe env (uuidv4 env 0)) \<longrightarrow> \<not> persisted (uuidv4 env 0) w')"
proof (cases "delete_recipe env (uuidv4 env 0)")
  case (Resolves rep)
  then show ?thesis
    using assms
    by (auto simp: createRecipe_def db_insert_recipe_def db_insert_ingredients_def
        db_delete_recipe_def Let_def applied_def persisted_def list_ex_iff split: if_splits)
next
  case (Rejects e)
  then show ?thesis
    using assms
    by (auto simp: createRecipe_def db_insert_recipe_def db_insert_ingredients_def
        db_delete_recipe_def Let_def applied_def)
qed

lemma keys_differ:
  "u16 ''title'' \<noteq> u16 ''owner_user_id''"
  "u16 ''raw_text'' \<noteq> u16 ''owner_user_id''"
  "u16 ''recipe_data'' \<noteq> u16 ''owner_user_id''"
  by (simp_all add: u16_def)

lemma validate_reads:
  assumes "own fs1 (u16 ''title'') = own fs2 (u16 ''title'')"
    and "own fs1 (u16 ''raw_text'') = own fs2 (u16 ''raw_text'')"
    and "own fs1 (u16 ''recipe_data'') = own fs2 (u16 ''recipe_data'')"
  shows "validateCreateRecipeCommand (JObj fs1) = validateCreateRecipeCommand (JObj fs2)"
  using assms by (simp add: validateCreateRecipeCommand_def)

lemma createRecipe_reads:
  assumes "own fs1 (u16 ''title'') = own fs2 (u16 ''title'')"
    and "own fs1 (u16 ''raw_text'') = own fs2 (u16 ''raw_text'')"
    and "own fs1 (u16 ''recipe_data'') = own fs2 (u16 ''recipe_data'')"
  shows "createRecipe env userId (JObj fs1) w = createRecipe env userId (JObj fs2) w"
proof -
  have rp: "recipe_insert_payload env userId (JObj fs1) = recipe_insert_payload env userId (JObj fs2)"
    using assms by (simp add: recipe_insert_payload_def)
  have ip: "ingredientsPayload env rid (JObj fs1) = ingredientsPayload env rid (JObj fs2)" for rid
    using assms by (simp add: ingredientsPayload_def)
  have wa: "write_audit env userId (JObj fs1) = write_audit env userId (JObj fs2)"
    using assms by (simp add: write_audit_def audit_payload_def fun_eq_iff)
  have gp: "get_prop (JObj fs1) (u16 ''recipe_data'') = get_prop (JObj fs2) (u16 ''recipe_data'')"
    using assms by simp
  show ?thesis
    unfolding createRecipe_def rp ip wa gp by (rule refl)
qed

lemma getAuth_body [simp]:
  "getAuthUserIdFromHeader env (req\<lparr>json_body := b\<rparr>) w = getAuthUserIdFromHeader env req w"
  by (simp add: getAuthUserIdFromHeader_def)

lemma post_reads:
  assumes "own fs1 (u16 ''title'') = own fs2 (u16 ''title'')"
    and "own fs1 (u16 ''raw_text'') = own fs2 (u16 ''raw_text'')"
    and "own fs1 (u16 ''recipe_data'') = own fs2 (u16 ''recipe_data'')"
  shows "post env (req\<lparr>json_body := Some (JObj fs1)\<rparr>) w = post env (req\<lparr>json_body := Some (JObj fs2)\<rparr>) w"
proof -
  have v: "validateCreateRecipeCommand (JObj fs1) = validateCreateRecipeCommand (JObj fs2)"
    using validate_reads [OF assms] .
  have c: "createRecipe env userId (JObj fs1) = createRecipe env userId (JObj fs2)" for userId
    using createRecipe_reads [OF assms] by (simp add: fun_eq_iff)
  show ?thesis
    by (simp add: post_def) (unfold v c getAuth_body, rule refl)
qed

lemma recipes_write_audit: "recipes (write_audit env userId cmd w) = recipes w"
  by (simp add: write_audit_def db_insert_audit_def Let_def split: sum.splits outcome.splits)

lemma payload_owner:
  "recipe_insert_payload env userId cmd = Inr row \<Longrightarrow> own row (u16 ''owner_user_id'') = userId"
  by (auto simp: recipe_insert_payload_def and_then_def own_def u16_def split: sum.splits)

lemma createRecipe_recipes:
  assumes "createRecipe env userId cmd w = (r, w')" and "row \<in> set (recipes w')"
  shows "row \<in> set (recipes w) \<or> own row (u16 ''owner_user_id'') = userId"
proof (cases "recipe_insert_payload env userId cmd")
  case (Inl e)
  then show ?thesis using assms by (simp add: createRecipe_def)
next
  case (Inr new_row)
  have owner: "own new_row (u16 ''owner_user_id'') = userId"
    using payload_owner [OF Inr] .
  have "set (recipes w') \<subseteq> set (recipes w) \<union> {new_row}"
    using assms(1) Inr
    by (auto simp: createRecipe_def db_insert_recipe_def db_insert_ingredients_def
        db_delete_recipe_def Let_def recipes_write_audit
        split: sum.splits outcome.splits reply.splits option.splits if_splits)
  then show ?thesis
    using assms(2) owner by auto
qed

lemma recipes_getAuth: "getAuthUserIdFromHeader env req w = (a, w1) \<Longrightarrow> recipes w1 = recipes w"
  by (auto simp: getAuthUserIdFromHeader_def auth_get_user_def
      split: option.splits if_splits list.splits outcome.splits reply.splits)

lemma recipes_resolve: "resolve_user_id env a w = (r, w1) \<Longrightarrow> recipes w1 = recipes w"
  by (auto simp: resolve_user_id_def db_select_mapping_def db_insert_user_def db_insert_mapping_def
      Let_def split: option.splits if_splits outcome.splits reply.splits)

text \<open>
  Claim C2. Two requests to the handler whose bodies differ only in an
  \<open>owner_user_id\<close> field have the same outcome in every respect: the same response, the
  same calls and the same store, so the same \<open>owner_user_id\<close> in the persisted recipe
  row. Every recipe row the handler adds to the store has as its \<open>owner_user_id\<close> the
  internal user id that \<open>resolve_user_id\<close> obtained from the auth mapping for the
  authenticated user; no field of the body is written there.
\<close>

theorem owner_from_auth_mapping:
  assumes agree: "\<forall>k. k \<noteq> u16 ''owner_user_id'' \<longrightarrow> own fs1 k = own fs2 k"
  shows "post env (req\<lparr>json_body := Some (JObj fs1)\<rparr>) w = post env (req\<lparr>json_body := Some (JObj fs2)\<rparr>) w
       \<and> (\<forall>response w' row.
            post env (req\<lparr>json_body := Some (JObj fs1)\<rparr>) w = (response, w') \<and> row \<in> set (recipes w')
            \<longrightarrow> row \<in> set (recipes w) \<or>
                (\<exists>authUserId w1 w2.
                    getAuthUserIdFromHeader env req w = (Some authUserId, w1) \<and>
                    resolve_user_id env authUserId w1 = (Inr (own row (u16 ''owner_user_id'')), w2)))"
proof -
  have same: "post env (req\<lparr>json_body := Some (JObj fs1)\<rparr>) w = post env (req\<lparr>json_body := Some (JObj fs2)\<rparr>) w"
    using agree keys_differ by (intro post_reads) simp_all
  have prov: "row \<in> set (recipes w) \<or>
                (\<exists>authUserId w1 w2.
                    getAuthUserIdFromHeader env req w = (Some authUserId, w1) \<and>
                    resolve_user_id env authUserId w1 = (Inr (own row (u16 ''owner_user_id'')), w2))"
    if p: "post env (req\<lparr>json_body := Some body\<rparr>) w = (response, w')" and row: "row \<in> set (recipes w')"
    for response w' row body
  proof (cases "row \<in> set (recipes w)")
    case True
    then show ?thesis by simp
  next
    case False
    obtain a w1 where g: "getAuthUserIdFromHeader env req w = (a, w1)"
      by (cases "getAuthUserIdFromHeader env req w")
    have g': "getAuthUserIdFromHeader env (req\<lparr>json_body := Some body\<rparr>) w = (a, w1)"
      using g by simp
    have r1: "recipes w1 = recipes w"
      using recipes_getAuth [OF g] .
    show ?thesis
    proof (cases "validateCreateRecipeCommand body = Inr Valid \<and> (\<exists>au. a = Some au \<and> au \<noteq> [])")
      case nogo: False
      have "recipes w' = recipes w"
        using p g' r1 nogo
        by (auto simp: post_def split: sum.splits ValidationResult.splits option.splits if_splits)
      then show ?thesis using row False by simp
    next
      case True
      then obtain au where au: "a = Some au" "au \<noteq> []" and v: "validateCreateRecipeCommand body = Inr Valid"
        by auto
      obtain ru w2 where res: "resolve_user_id env au w1 = (ru, w2)"
        by (cases "resolve_user_id env au w1")
      have r2: "recipes w2 = recipes w"
        using recipes_resolve [OF res] r1 by simp
      show ?thesis
      proof (cases ru)
        case (Inl e)
        then have "recipes w' = recipes w"
          using p g' v au res r2 by (auto simp: post_def)
        then show ?thesis using row False by simp
      next
        case (Inr userId)
        obtain cr w3 where c: "createRecipe env userId body w2 = (cr, w3)"
          by (cases "createRecipe env userId body w2")
        have "recipes w' = recipes w3"
          using p g' v au res Inr c by (auto simp: post_def split: sum.splits)
        then have "own row (u16 ''owner_user_id'') = userId"
          using createRecipe_recipes [OF c, of row] row False r2 by simp
        then show ?thesis
          using g au res Inr by auto
      qed
    qed
  qed
  show ?thesis
    using same prov by blast
qed

lemma salmon_valid: "validateCreateRecipeCommand (salmon_recipe salmon_steps) = Inr Valid"
proof -
  have "steps_loop [JStr (u16 ''Cook salmon for 10 minutes.''),
                    JStr (u16 ''Saute spinach in olive oil for 3 minutes.'')] 0 [] = Inr []"
    by (simp add: step_step_eq step_error_def and_then_def u16_def)
  then show ?thesis
    using validate_other_rules_pass [OF salmon_other_rules, of salmon_steps _ "[]"]
    by (simp add: salmon_recipe_steps salmon_steps_def)
qed

lemma happy_env_simps [simp]:
  "insert_recipe happy_env r = Resolves (Reply (Some r) None)"
  "insert_ingredients happy_env rs = Resolves (Reply (Some rs) None)"
  "delete_recipe happy_env i = Resolves (Reply (Some ()) None)"
  "insert_audit happy_env r = Resolves (Reply (Some ()) None)"
  "uuidv4 happy_env n = u16 ''uuid-'' @ u16 (show_nat n)"
  "auth_getUser happy_env t = Resolves (Reply (Some (Some (u16 ''auth-user-1''))) None)"
  "select_mapping happy_env a =
     Resolves (Reply (Some [(u16 ''auth_user_id'', JStr a),
                            (u16 ''user_id'', JStr (u16 ''internal-user-7''))]) None)"
  by (simp_all add: happy_env_def)

lemma failed_env_simps [simp]:
  "insert_recipe failed_ingredients_env r = Resolves (Reply (Some r) None)"
  "insert_ingredients failed_ingredients_env rs = Resolves (Reply None (Some (u16 ''insert failed'')))"
  "delete_recipe failed_ingredients_env i = Resolves (Reply (Some ()) None)"
  "uuidv4 failed_ingredients_env n = u16 ''uuid-'' @ u16 (show_nat n)"
  by (simp_all add: failed_ingredients_env_def happy_env_def)

lemma stuck_env_simps [simp]:
  "insert_recipe stuck_delete_env r = Resolves (Reply (Some r) None)"
  "insert_ingredients stuck_delete_env rs = Resolves (Reply None (Some (u16 ''insert failed'')))"
  "delete_recipe stuck_delete_env i = Resolves (Reply None (Some (u16 ''delete failed'')))"
  "uuidv4 stuck_delete_env n = u16 ''uuid-'' @ u16 (show_nat n)"
  by (simp_all add: stuck_delete_env_def failed_ingredients_env_def happy_env_def)

text \<open>The example recipe, created against a store on which every call succeeds.\<close>

theorem created_recipe_response_witness:
  "validateCreateRecipeCommand (salmon_recipe salmon_steps) = Inr Valid
   \<and> (\<exists>response w'.
        createRecipe happy_env (JStr (u16 ''internal-user-7'')) (salmon_recipe salmon_steps) empty_world
          = (Inr response, w')
        \<and> get_prop response (u16 ''recipe_data'')
            = get_prop (salmon_recipe salmon_steps) (u16 ''recipe_data'')
        \<and> get_prop response (u16 ''cached_nutrition'') = Inr JNull)"
  using created_recipe_response [OF salmon_valid, of happy_env "JStr (u16 ''internal-user-7'')" empty_world]
    salmon_valid
  by simp

lemma salmon_payloads:
  "\<exists>row payload.
     recipe_insert_payload env userId (salmon_recipe salmon_steps) = Inr row \<and>
     ingredientsPayload env (uuidv4 env 0) (salmon_recipe salmon_steps) = Inr payload"
  using valid_payloads [OF salmon_valid] by blast

text \<open>
  Claim C1 as stated fails: when the compensating delete itself reports an error, the
  error is ignored, \<open>createRecipe\<close> throws the ingredient error, and the recipe row stays
  in the store. The delete was the last call made.
\<close>

theorem compensating_delete_counterexample:
  "fst (createRecipe stuck_delete_env (JStr (u16 ''internal-user-7'')) (salmon_recipe salmon_steps)
          empty_world)
     = Inl (Error (u16 ''Failed to insert ingredients: insert failed''))
   \<and> last (calls (snd (createRecipe stuck_delete_env (JStr (u16 ''internal-user-7''))
                          (salmon_recipe salmon_steps) empty_world)))
     = DeleteRecipe (uuidv4 stuck_delete_env 0)
   \<and> persisted (uuidv4 stuck_delete_env 0)
        (snd (createRecipe stuck_delete_env (JStr (u16 ''internal-user-7''))
                (salmon_recipe salmon_steps) empty_world))"
proof -
  obtain row payload where
    p: "recipe_insert_payload stuck_delete_env (JStr (u16 ''internal-user-7'')) (salmon_recipe salmon_steps) = Inr row"
      "ingredientsPayload stuck_delete_env (uuidv4 stuck_delete_env 0) (salmon_recipe salmon_steps) = Inr payload"
    using salmon_payloads by blast
  have id: "own row (u16 ''id'') = JStr (uuidv4 stuck_delete_env 0)"
    using p(1) by (auto simp: recipe_insert_payload_def and_then_def own_def u16_def split: sum.splits)
  show ?thesis
    using p id
    by (simp add: createRecipe_def db_insert_recipe_def db_insert_ingredients_def
        db_delete_recipe_def Let_def applied_def persisted_def empty_world_def)
       (simp add: u16_def)
qed

text \<open>The amended claim on the example recipe, with a store whose delete works.\<close>

theorem compensating_delete_witness:
  "\<exists>row payload.
      recipe_insert_payload failed_ingredients_env (JStr (u16 ''internal-user-7'')) (salmon_recipe salmon_steps)
        = Inr row
    \<and> insert_recipe failed_ingredients_env row = Resolves (Reply (Some row) None)
    \<and> ingredientsPayload failed_ingredients_env (uuidv4 failed_ingredients_env 0) (salmon_recipe salmon_steps)
        = Inr payload
    \<and> insert_ingredients failed_ingredients_env payload
        = Resolves (Reply None (Some (u16 ''insert failed'')))
    \<and> calls (snd (createRecipe failed_ingredients_env (JStr (u16 ''internal-user-7''))
                     (salmon_recipe salmon_steps) empty_world))
        = [InsertRecipe row, InsertIngredients payload, DeleteRecipe (uuidv4 failed_ingredients_env 0)]
    \<and> fst (createRecipe failed_ingredients_env (JStr (u16 ''internal-user-7''))
              (salmon_recipe salmon_steps) empty_world)
        = Inl (Error (u16 ''Failed to insert ingredients: insert failed''))
    \<and> \<not> persisted (uuidv4 failed_ingredients_env 0)
          (snd (createRecipe failed_ingredients_env (JStr (u16 ''internal-user-7''))
                  (salmon_recipe salmon_steps) empty_world))"
proof -
  let ?run = "createRecipe failed_ingredients_env (JStr (u16 ''internal-user-7''))
                (salmon_recipe salmon_steps) empty_world"
  obtain row payload where
    p: "recipe_insert_payload failed_ingredients_env (JStr (u16 ''internal-user-7'')) (salmon_recipe salmon_steps) = Inr row"
      "ingredientsPayload failed_ingredients_env (uuidv4 failed_ingredients_env 0) (salmon_recipe salmon_steps) = Inr payload"
    using salmon_payloads by blast
  have r: "insert_recipe failed_ingredients_env row = Resolves (Reply (Some row) None)"
    by simp
  have i: "insert_ingredients failed_ingredients_env payload
             = Resolves (Reply None (Some (u16 ''insert failed'')))"
    by simp
  have run: "?run = (fst ?run, snd ?run)"
    by simp
  note main = compensating_delete [OF p(1) r p(2) i run]
  have "calls (snd ?run) = [InsertRecipe row, InsertIngredients payload,
                            DeleteRecipe (uuidv4 failed_ingredients_env 0)]"
    using main by (simp add: empty_world_def)
  moreover have "fst ?run = Inl (Error (u16 ''Failed to insert ingredients: insert failed''))"
    using main by (simp add: u16_def)
  moreover have "\<not> persisted (uuidv4 failed_ingredients_env 0) (snd ?run)"
    using main by (simp add: applied_def)
  ultimately show ?thesis
    using p r i by blast
qed

lemma bearer_auth:
  "getAuthUserIdFromHeader happy_env bearer_request w =
     (Some (u16 ''auth-user-1''), w\<lparr>calls := calls w @ [GetUser (u16 ''token-1'')]\<rparr>)"
  by (simp add: getAuthUserIdFromHeader_def bearer_request_def auth_get_user_def u16_def)

lemma happy_mapping:
  "resolve_user_id happy_env a w =
     (Inr (JStr (u16 ''internal-user-7'')), w\<lparr>calls := calls w @ [SelectMapping a]\<rparr>)"
  by (simp add: resolve_user_id_def db_select_mapping_def own_def u16_def)

lemma happy_create_owners:
  assumes "validateCreateRecipeCommand cmd = Inr Valid"
  shows "\<exists>response w'. createRecipe happy_env userId cmd w = (Inr response, w') \<and>
           recipe_owners w' = recipe_owners w @ [userId]"
proof -
  obtain row payload rd where p: "recipe_insert_payload happy_env userId cmd = Inr row"
    "ingredientsPayload happy_env (uuidv4 happy_env 0) cmd = Inr payload"
    "get_prop cmd (u16 ''recipe_data'') = Inr rd"
    using valid_payloads [OF assms] by blast
  have "own row (u16 ''owner_user_id'') = userId"
    using payload_owner [OF p(1)] .
  then show ?thesis
    using p
    by (simp add: createRecipe_def db_insert_recipe_def db_insert_ingredients_def Let_def
        applied_def recipe_owners_def recipes_write_audit del: happy_env_simps(5))
qed

text \<open>
  The example recipe with and without \<open>owner_user_id: "mallory"\<close> in the body: the same
  outcome, and the one persisted row is owned by the mapped internal user.
\<close>

theorem owner_from_auth_mapping_witness:
  "post happy_env
     (bearer_request\<lparr>json_body := Some (JObj ((u16 ''owner_user_id'', JStr (u16 ''mallory''))
                                                # salmon_fields salmon_steps))\<rparr>) empty_world
   = post happy_env (bearer_request\<lparr>json_body := Some (JObj (salmon_fields salmon_steps))\<rparr>) empty_world
   \<and> recipe_owners
        (snd (post happy_env
                (bearer_request\<lparr>json_body := Some (JObj ((u16 ''owner_user_id'', JStr (u16 ''mallory''))
                                                           # salmon_fields salmon_steps))\<rparr>) empty_world))
     = [JStr (u16 ''internal-user-7'')]"
proof -
  let ?fs1 = "(u16 ''owner_user_id'', JStr (u16 ''mallory'')) # salmon_fields salmon_steps"
  let ?fs2 = "salmon_fields salmon_steps"
  have agree: "\<forall>k. k \<noteq> u16 ''owner_user_id'' \<longrightarrow> own ?fs1 k = own ?fs2 k"
    by (simp add: own_def)
  from owner_from_auth_mapping [OF agree, of happy_env bearer_request empty_world]
  have same: "post happy_env (bearer_request\<lparr>json_body := Some (JObj ?fs1)\<rparr>) empty_world
            = post happy_env (bearer_request\<lparr>json_body := Some (JObj ?fs2)\<rparr>) empty_world"
    by blast
  have valid: "validateCreateRecipeCommand (JObj ?fs2) = Inr Valid"
    using salmon_valid by (simp add: salmon_recipe_def)
  let ?w2 = "empty_world\<lparr>calls := calls empty_world @ [GetUser (u16 ''token-1'')],
                          calls := calls (empty_world\<lparr>calls := calls empty_world @ [GetUser (u16 ''token-1'')]\<rparr>)
                                   @ [SelectMapping (u16 ''auth-user-1'')]\<rparr>"
  obtain response w' where c: "createRecipe happy_env (JStr (u16 ''internal-user-7'')) (JObj ?fs2) ?w2
      = (Inr response, w')" "recipe_owners w' = recipe_owners ?w2 @ [JStr (u16 ''internal-user-7'')]"
    using happy_create_owners [OF valid] by blast
  have "post happy_env (bearer_request\<lparr>json_body := Some (JObj ?fs2)\<rparr>) empty_world
          = (Inr (Response 201 response), w')"
    using valid c(1) by (simp add: post_def bearer_auth happy_mapping u16_def)
  then have "recipe_owners (snd (post happy_env (bearer_request\<lparr>json_body := Some (JObj ?fs2)\<rparr>) empty_world))
          = [JStr (u16 ''internal-user-7'')]"
    using c(2) by (simp add: recipe_owners_def empty_world_def)
  then show ?thesis
    using same by simp
qed

section \<open>Properties of the enrichment client\<close>

lemma attempt_net: "attempt nenv payload n = (r, n1) \<Longrightarrow> n1 = n\<lparr>sent := sent n @ [payload]\<rparr>"
  by (auto simp: attempt_def Let_def split: sum.splits)

lemma attempt_fails_retriable: "attempt nenv payload n = (Inl e, n1) \<Longrightarrow> isRetriableError e"
  by (auto simp: attempt_def Let_def catch_attempt_def split: sum.splits)

lemma retry_loop_trace:
  assumes "\<forall>n r n1. fn n = (r, n1) \<longrightarrow> n1 = n\<lparr>sent := sent n @ [payload]\<rparr>"
    and "retry_loop fn nenv retries a n = (r, n')"
  shows "\<exists>m. sent n' = sent n @ replicate (Suc m) payload
           \<and> draws n' = draws n + m
           \<and> waits n' = waits n @
                map (\<lambda>i. (a + Suc i, min 2000 (300 * 2 ^ (a + Suc i)) + random nenv (draws n + i) * 100)) [0..<m]
           \<and> (m = 0 \<or> int (a + m) \<le> retries)"
  using assms
proof (induction fn nenv retries a n arbitrary: r n' rule: retry_loop.induct)
  case (1 fn nenv retries a n)
  obtain r1 n1 where f: "fn n = (r1, n1)" by (cases "fn n")
  have n1: "n1 = n\<lparr>sent := sent n @ [payload]\<rparr>"
    using "1.prems"(1) f by blast
  show ?case
  proof (cases r1)
    case (Inr v)
    then have "n' = n1"
      using "1.prems"(2) f by (subst (asm) retry_loop.simps) simp
    then show ?thesis
      using n1 by (intro exI [of _ 0]) simp
  next
    case (Inl err)
    show ?thesis
    proof (cases "\<not> isRetriableError err \<or> int (Suc a) > retries")
      case True
      then have "n' = n1"
        using "1.prems"(2) f Inl by (subst (asm) retry_loop.simps) auto
      then show ?thesis
        using n1 by (intro exI [of _ 0]) simp
    next
      case False
      let ?n2 = "n1\<lparr>draws := Suc (draws n1),
                    waits := waits n1 @
                      [(Suc a, min 2000 (300 * 2 ^ Suc a) + random nenv (draws n1) * 100)]\<rparr>"
      have rec: "retry_loop fn nenv retries (Suc a) ?n2 = (r, n')"
        using "1.prems"(2) f Inl False by (subst (asm) retry_loop.simps) auto
      from "1.IH" [OF f [symmetric] Inl False "1.prems"(1) rec]
      obtain m where m: "sent n' = sent ?n2 @ replicate (Suc m) payload"
        "draws n' = draws ?n2 + m"
        "waits n' = waits ?n2 @
           map (\<lambda>i. (Suc a + Suc i, min 2000 (300 * 2 ^ (Suc a + Suc i)) + random nenv (draws ?n2 + i) * 100)) [0..<m]"
        "m = 0 \<or> int (Suc a + m) \<le> retries"
        by blast
      have "sent n' = sent n @ replicate (Suc (Suc m)) payload"
        using m(1) n1 by simp
      moreover have "draws n' = draws n + Suc m"
        using m(2) n1 by simp
      moreover have "waits n' = waits n @
          map (\<lambda>i. (a + Suc i, min 2000 (300 * 2 ^ (a + Suc i)) + random nenv (draws n + i) * 100)) [0..<Suc m]"
        using m(3) n1 by (simp add: map_upt_Suc del: upt_Suc)
      moreover have "int (a + Suc m) \<le> retries"
        using m(4) False by auto
      ultimately show ?thesis
        by (intro exI [of _ "Suc m"]) simp
    qed
  qed
qed

text \<open>
  Claim C9. In every \<open>sendMessage\<close> call the pauses of the backoff loop are, in order,
  those before retry number 1, 2, ..., \<open>m\<close>; the pause before retry number \<open>n\<close> is
  \<open>min 2000 (300 * 2 ^ n)\<close> milliseconds plus a jitter in the interval from 0 (included) to
  100 (excluded), \<open>Math.random()\<close> being in the interval from 0 to 1; and the retries stop at
  the configured maximum: \<open>m\<close> is at most \<open>maxRetries\<close>, and \<open>m + 1\<close> requests are sent.
  Numbers are real numbers here, not doubles.
\<close>

theorem backoff_waits:
  assumes rnd: "\<forall>k. 0 \<le> random nenv k \<and> random nenv k < 1"
    and run: "sendMessage svc nenv messages opts n = (r, n')"
  shows "\<exists>m jitter.
           (\<forall>i<m. 0 \<le> jitter i \<and> jitter i < 100)
         \<and> waits n' = waits n @ map (\<lambda>i. (Suc i, min 2000 (300 * 2 ^ Suc i) + jitter i)) [0..<m]
         \<and> (m = 0 \<or> int m \<le> maxRetries svc)
         \<and> (length (sent n') = length (sent n) + Suc m \<or> (m = 0 \<and> sent n' = sent n))"
proof (cases "isShutdown svc \<or> messages = []")
  case True
  then have "n' = n"
    using run by (auto simp: sendMessage_def split: if_splits)
  then show ?thesis
    by (intro exI [of _ 0]) simp
next
  case False
  then obtain payload where p: "buildPayload svc messages opts = Inr payload"
    by (auto simp: buildPayload_def Let_def)
  have loop: "retry_loop (attempt nenv payload) nenv (maxRetries svc) 0 n = (r, n')"
    using run False p by (simp add: sendMessage_def retryWithBackoff_def)
  have "\<forall>n r n1. attempt nenv payload n = (r, n1) \<longrightarrow> n1 = n\<lparr>sent := sent n @ [payload]\<rparr>"
    using attempt_net by blast
  from retry_loop_trace [OF this loop]
  obtain m where m: "sent n' = sent n @ replicate (Suc m) payload"
    "waits n' = waits n @
       map (\<lambda>i. (0 + Suc i, min 2000 (300 * 2 ^ (0 + Suc i)) + random nenv (draws n + i) * 100)) [0..<m]"
    "m = 0 \<or> int (0 + m) \<le> maxRetries svc"
    by blast
  let ?jitter = "\<lambda>i. random nenv (draws n + i) * 100"
  have j: "\<forall>i<m. 0 \<le> ?jitter i \<and> ?jitter i < 100"
    using rnd by simp
  have w: "waits n' = waits n @ map (\<lambda>i. (Suc i, min 2000 (300 * 2 ^ Suc i) + ?jitter i)) [0..<m]"
    using m(2) by simp
  have b: "m = 0 \<or> int m \<le> maxRetries svc"
    using m(3) by simp
  have l: "length (sent n') = length (sent n) + Suc m"
    using m(1) by simp
  show ?thesis
    by (rule exI [of _ m], rule exI [of _ ?jitter]) (use j w b l in blast)
qed

lemma attempt_429:
  assumes "fetch nenv (length (sent n)) = FetchResponse res" and "status res = 429"
  shows "attempt nenv payload n =
           (Inl (NetworkError (u16 ''Network request failed'')
                   (RateLimitError (u16 ''Rate limited by OpenRouter'') (retryAfter_of res))),
            n\<lparr>sent := sent n @ [payload]\<rparr>)"
  using assms
  by (simp add: attempt_def handleOpenRouterResponse_def ok_def catch_attempt_def Let_def)

lemma retry_loop_429:
  assumes "\<forall>k. fetch nenv k = FetchResponse (rs k) \<and> status (rs k) = 429"
    and "int a \<le> retries"
  shows "\<exists>n'. retry_loop (attempt nenv payload) nenv retries a n =
           (Inl (NetworkError (u16 ''Network request failed'')
                   (RateLimitError (u16 ''Rate limited by OpenRouter'')
                      (retryAfter_of (rs (length (sent n) + nat (retries - int a)))))), n')
         \<and> length (sent n') = length (sent n) + nat (retries - int a) + 1"
  using assms(2)
proof (induction "nat (retries - int a)" arbitrary: a n)
  case 0
  then have stop: "int (Suc a) > retries" by simp
  have a: "attempt nenv payload n =
           (Inl (NetworkError (u16 ''Network request failed'')
                   (RateLimitError (u16 ''Rate limited by OpenRouter'') (retryAfter_of (rs (length (sent n)))))),
            n\<lparr>sent := sent n @ [payload]\<rparr>)"
    using attempt_429 assms(1) by simp
  show ?case
    using 0 stop a by (subst retry_loop.simps) simp
next
  case (Suc d)
  then have go: "\<not> int (Suc a) > retries" and d: "d = nat (retries - int (Suc a))"
    and le: "int (Suc a) \<le> retries"
    by simp_all
  have a: "attempt nenv payload n =
           (Inl (NetworkError (u16 ''Network request failed'')
                   (RateLimitError (u16 ''Rate limited by OpenRouter'') (retryAfter_of (rs (length (sent n)))))),
            n\<lparr>sent := sent n @ [payload]\<rparr>)"
    using attempt_429 assms(1) by simp
  let ?n1 = "n\<lparr>sent := sent n @ [payload]\<rparr>"
  let ?n2 = "?n1\<lparr>draws := Suc (draws ?n1),
                  waits := waits ?n1 @
                    [(Suc a, min 2000 (300 * 2 ^ Suc a) + random nenv (draws ?n1) * 100)]\<rparr>"
  from Suc.hyps(1) [OF d le, of ?n2]
  obtain n' where n': "retry_loop (attempt nenv payload) nenv retries (Suc a) ?n2 =
           (Inl (NetworkError (u16 ''Network request failed'')
                   (RateLimitError (u16 ''Rate limited by OpenRouter'')
                      (retryAfter_of (rs (length (sent ?n2) + nat (retries - int (Suc a))))))), n')"
    "length (sent n') = length (sent ?n2) + nat (retries - int (Suc a)) + 1"
    by blast
  have idx: "length (sent ?n2) + nat (retries - int (Suc a)) = length (sent n) + nat (retries - int a)"
    using le by simp
  have unroll: "retry_loop (attempt nenv payload) nenv retries a n =
          retry_loop (attempt nenv payload) nenv retries (Suc a) ?n2"
    using a go by (subst retry_loop.simps) simp
  have "retry_loop (attempt nenv payload) nenv retries a n =
           (Inl (NetworkError (u16 ''Network request failed'')
                   (RateLimitError (u16 ''Rate limited by OpenRouter'')
                      (retryAfter_of (rs (length (sent n) + nat (retries - int a)))))), n')"
    using unroll n'(1) by (simp only: idx)
  moreover have "length (sent n') = length (sent n) + nat (retries - int a) + 1"
    using n'(2) by (simp only: idx)
  ultimately show ?case
    by blast
qed

text \<open>
  Claim C4 fails on the code. When every HTTP attempt yields status 429, \<open>sendMessage\<close>
  does make exactly \<open>maxRetries\<close> additional attempts, but what it throws in the end is a
  \<open>NetworkError\<close> with the message \<open>Network request failed\<close>; the \<open>RateLimitError\<close> with
  the advertised retry-after is only its cause. The \<open>catch\<close> clause of \<open>attempt\<close> also
  catches what \<open>handleOpenRouterResponse\<close> throws and wraps it.
\<close>

theorem rate_limit_surfaces_as_network_error:
  assumes "\<forall>k. fetch nenv k = FetchResponse (rs k) \<and> status (rs k) = 429"
    and "0 \<le> maxRetries svc" and "\<not> isShutdown svc" and "messages \<noteq> []"
  shows "\<exists>n'. sendMessage svc nenv messages opts n =
           (Inl (NetworkError (u16 ''Network request failed'')
                   (RateLimitError (u16 ''Rate limited by OpenRouter'')
                      (retryAfter_of (rs (length (sent n) + nat (maxRetries svc)))))), n')
         \<and> length (sent n') = length (sent n) + nat (maxRetries svc) + 1"
proof -
  obtain payload where p: "buildPayload svc messages opts = Inr payload"
    using assms(4) by (auto simp: buildPayload_def Let_def)
  have le: "int 0 \<le> maxRetries svc"
    using assms(2) by simp
  from retry_loop_429 [OF assms(1) le, of payload n]
  obtain n' where n': "retry_loop (attempt nenv payload) nenv (maxRetries svc) 0 n =
           (Inl (NetworkError (u16 ''Network request failed'')
                   (RateLimitError (u16 ''Rate limited by OpenRouter'')
                      (retryAfter_of (rs (length (sent n) + nat (maxRetries svc - int 0)))))), n')"
    "length (sent n') = length (sent n) + nat (maxRetries svc - int 0) + 1"
    by blast
  have "sendMessage svc nenv messages opts n =
          retry_loop (attempt nenv payload) nenv (maxRetries svc) 0 n"
    using assms(3,4) p by (simp add: sendMessage_def retryWithBackoff_def)
  then show ?thesis
    using n' by simp
qed

text \<open>
  Claim C5. In every \<open>sendStructuredMessage\<close> call with a \<open>json_schema\<close> response format,
  a payload is returned only after the validator of the named schema has accepted it; if
  that validator rejects the payload, the call fails with a \<open>ResponseFormatError\<close> that
  carries the validator's errors; and the call leaves the network state exactly as the one
  \<open>sendMessage\<close> call inside it left it, so a validation failure causes no further HTTP
  attempt.
\<close>

theorem structured_validation:
  assumes "rf_type responseFormat = u16 ''json_schema''"
    and "sendMessage svc nenv messages (opts\<lparr>opt_responseFormat := Some responseFormat\<rparr>) n = (r0, n1)"
    and "sendStructuredMessage svc nenv messages responseFormat opts n = (r, svc', n')"
  shows "n' = n1
       \<and> (\<forall>p. r = Inr p \<longrightarrow>
            (\<exists>res v. r0 = Inr res \<and> p = nullish (opt_prop res (u16 ''output'')) res \<and>
                     named_validator svc nenv responseFormat = Some v \<and> fst (v p)))
       \<and> (\<forall>res v. r0 = Inr res \<and> named_validator svc nenv responseFormat = Some v \<and>
                   \<not> fst (v (nullish (opt_prop res (u16 ''output'')) res)) \<longrightarrow>
            r = Inl (ResponseFormatError (u16 ''Response did not match schema'')
                       (snd (v (nullish (opt_prop res (u16 ''output'')) res)))))"
  using assms
  by (auto simp: sendStructuredMessage_def Let_def split: sum.splits option.splits prod.splits if_splits)

lemma parse_seven: "retryAfter_of \<lparr>status = 429, retry_after = Some (u16 ''7''), body_text = Some [], body_json = None\<rparr> = Some 7"
  by (simp add: retryAfter_of_def parseInt10_def u16_def is_space_def is_digit_def digits_value_def
      Let_def)

text \<open>
  With \<open>maxRetries = 3\<close> and \<open>Retry-After: 7\<close> on every response: four requests, and a
  \<open>NetworkError\<close> at the end.
\<close>

theorem rate_limit_surfaces_as_network_error_witness:
  "fst (sendMessage example_service rate_limited_env hello no_opts idle_net) =
     Inl (NetworkError (u16 ''Network request failed'')
            (RateLimitError (u16 ''Rate limited by OpenRouter'') (Some 7)))
   \<and> length (sent (snd (sendMessage example_service rate_limited_env hello no_opts idle_net))) = 4"
proof -
  let ?res = "\<lparr>status = 429, retry_after = Some (u16 ''7''), body_text = Some [], body_json = None\<rparr>"
  have all: "\<forall>k. fetch rate_limited_env k = FetchResponse ((\<lambda>k. ?res) k) \<and> status ((\<lambda>k. ?res) k) = 429"
    by (simp add: rate_limited_env_def)
  have "0 \<le> maxRetries example_service" "\<not> isShutdown example_service" "hello \<noteq> []"
    by (simp_all add: example_service_def hello_def)
  from rate_limit_surfaces_as_network_error [OF all this, of no_opts idle_net]
  show ?thesis
    by (auto simp: parse_seven example_service_def idle_net_def)
qed

text \<open>
  With no network, \<open>maxRetries = 3\<close> and \<open>Math.random()\<close> always one half: pauses of 650,
  1250 and 2050 milliseconds, four requests.
\<close>

theorem backoff_waits_witness:
  "(\<forall>k. 0 \<le> random offline_env k \<and> random offline_env k < 1)
   \<and> waits (snd (sendMessage example_service offline_env hello no_opts idle_net))
       = [(1, 650), (2, 1250), (3, 2050)]
   \<and> length (sent (snd (sendMessage example_service offline_env hello no_opts idle_net))) = 4"
proof -
  let ?run = "sendMessage example_service offline_env hello no_opts idle_net"
  have rnd: "\<forall>k. 0 \<le> random offline_env k \<and> random offline_env k < 1"
    by (simp add: offline_env_def)
  have run: "?run = (fst ?run, snd ?run)"
    by simp
  from backoff_waits [OF rnd run]
  obtain m jitter where
    w: "waits (snd ?run) = waits idle_net @ map (\<lambda>i. (Suc i, min 2000 (300 * 2 ^ Suc i) + jitter i)) [0..<m]"
    by blast
  have p: "buildPayload example_service hello no_opts =
             Inr (JObj [(u16 ''model'', JStr (defaultModel example_service)),
                        (u16 ''messages'', JArr (map message_json hello))])"
    by (simp add: buildPayload_def example_service_def hello_def no_opts_def)
  have a: "attempt offline_env payload n =
             (Inl (NetworkError (u16 ''Network request failed'') FetchFailure), n\<lparr>sent := sent n @ [payload]\<rparr>)"
    for payload n
    by (simp add: attempt_def offline_env_def catch_attempt_def Let_def)
  have half: "random offline_env k = 1 / 2" for k
    by (simp add: offline_env_def)
  have loop: "retry_loop (attempt offline_env payload) offline_env 3 0 idle_net =
      (Inl (NetworkError (u16 ''Network request failed'') FetchFailure),
       \<lparr>sent = [payload, payload, payload, payload], draws = 3,
        waits = [(1, 650), (2, 1250), (3, 2050)]\<rparr>)" for payload
    by (subst retry_loop.simps, simp add: a idle_net_def half)+
  have "waits (snd ?run) = [(1, 650), (2, 1250), (3, 2050)] \<and> length (sent (snd ?run)) = 4"
    using loop p by (simp add: sendMessage_def retryWithBackoff_def example_service_def hello_def)
  then show ?thesis
    using rnd w by simp
qed

text \<open>
  A response that the compiled validator rejects: one request, then the
  \<open>ResponseFormatError\<close> with the validator's errors.
\<close>

theorem structured_validation_witness:
  "rf_type nutrition_format = u16 ''json_schema''
   \<and> fst (sendStructuredMessage example_service mismatch_env hello nutrition_format no_opts idle_net)
       = Inl (ResponseFormatError (u16 ''Response did not match schema'')
                (JArr [JStr (u16 ''must be object'')]))
   \<and> length (sent (snd (snd (sendStructuredMessage example_service mismatch_env hello
                                 nutrition_format no_opts idle_net)))) = 1"
proof -
  let ?opts = "no_opts\<lparr>opt_responseFormat := Some nutrition_format\<rparr>"
  let ?inner = "sendMessage example_service mismatch_env hello ?opts idle_net"
  let ?run = "sendStructuredMessage example_service mismatch_env hello nutrition_format no_opts idle_net"
  have h: "rf_type nutrition_format = u16 ''json_schema''"
    by (simp add: nutrition_format_def)
  have run0: "?inner = (fst ?inner, snd ?inner)"
    by simp
  have run: "?run = (fst ?run, fst (snd ?run), snd (snd ?run))"
    by simp
  note main = structured_validation [OF h run0 run]
  obtain payload where p: "buildPayload example_service hello ?opts = Inr payload"
    "opt_prop payload (u16 ''response_format'') = response_format_json nutrition_format"
    by (simp add: buildPayload_def example_service_def hello_def no_opts_def own_def u16_def)
  have a: "attempt mismatch_env payload idle_net = (Inr (JStr (u16 ''none'')), idle_net\<lparr>sent := [payload]\<rparr>)"
    using p(2)
    by (simp add: attempt_def mismatch_env_def handleOpenRouterResponse_def ok_def Let_def
        response_format_json_def nullish_def own_def idle_net_def)
  have s: "?inner = (Inr (JStr (u16 ''none'')), idle_net\<lparr>sent := [payload]\<rparr>)"
    using p(1) a
    by (simp add: sendMessage_def retryWithBackoff_def example_service_def hello_def)
       (subst retry_loop.simps, simp)
  have v: "named_validator example_service mismatch_env nutrition_format
             = Some (\<lambda>p. (False, JArr [JStr (u16 ''must be object'')]))"
    by (simp add: named_validator_def example_service_def mismatch_env_def)
  have "fst ?run = Inl (ResponseFormatError (u16 ''Response did not match schema'')
                          (JArr [JStr (u16 ''must be object'')]))"
    using main s v by simp
  moreover have "length (sent (snd (snd ?run))) = 1"
    using main s by simp
  ultimately show ?thesis
    using h by simp
qed

end
